theory Spec2Isabelle
  imports Complex_Main
begin

section \<open>Data model\<close>

text \<open>
  The parking-lot core: \<^verbatim>\<open>interfaces/allocator.ts\<close> (vehicle types, spots),
  \<^verbatim>\<open>dtos/session.dto.ts\<close> (sessions), \<^verbatim>\<open>infra/inMemoryRepos.ts\<close> (the two
  repositories), \<^verbatim>\<open>services/flatFeeCalculator.ts\<close>, \<^verbatim>\<open>services/feeCalculatorFactory.ts\<close>,
  \<^verbatim>\<open>services/simpleAllocator.ts\<close> and \<^verbatim>\<open>services/parkingService.ts\<close>.

  JavaScript numbers that carry money or minutes (\<open>base\<close>, \<open>perHour\<close>, \<open>graceMinutes\<close>,
  \<open>amount\<close>) are modelled as \<open>real\<close>: exact arithmetic, no rounding of the binary
  representation. A \<open>Date\<close> is its \<open>getTime()\<close>, the integer number of milliseconds
  since the epoch. \<open>distanceRank\<close> is an integer. The readings of the clock (\<open>new Date()\<close>)
  and the generated identifiers (\<open>uuid()\<close>) are parameters of the operations that use them.
  The fields \<open>id\<close> and \<open>size\<close> of a spot and \<open>id\<close> of a session are named \<open>spot_id\<close>,
  \<open>spot_size\<close> and \<open>session_id\<close>, and \<^verbatim>\<open>FeeCalculatorFactory.for\<close> is \<open>for_type\<close>,
  since \<open>id\<close>, \<open>size\<close> and \<open>for\<close> are taken in HOL.
\<close>

datatype VehicleType = MOTORCYCLE | CAR | BUS

record VehicleDto =
  plate :: string
  type :: VehicleType

datatype SpotStatus = AVAILABLE | RESERVED | OCCUPIED

record ParkingSpot =
  spot_id :: string
  spot_size :: VehicleType
  code :: string
  status :: SpotStatus
  distanceRank :: int

record ParkingSession =
  session_id :: string
  vehicle :: VehicleDto
  spotId :: string
  entryTime :: int
  exitTime :: "int option"
  amount :: "real option"

datatype error = NoSpace | NotFound

section \<open>Fee calculation\<close>

text \<open>
  \<^verbatim>\<open>FlatPerHourCalculator\<close>: the three constructor arguments, with the defaults
  \<open>1.0\<close>, \<open>2.0\<close> and \<open>10\<close> of the source as \<open>defaultCalculator\<close>.
\<close>

record FlatPerHourCalculator =
  base :: real
  perHour :: real
  graceMinutes :: real

definition newFlatPerHourCalculator :: "real \<Rightarrow> real \<Rightarrow> real \<Rightarrow> FlatPerHourCalculator" where
  "newFlatPerHourCalculator b p g = \<lparr>base = b, perHour = p, graceMinutes = g\<rparr>"

definition defaultCalculator :: FlatPerHourCalculator where
  "defaultCalculator = newFlatPerHourCalculator 1 2 10"

text \<open>
  \<^verbatim>\<open>calculate(session)\<close>. \<open>now\<close> is the clock reading taken by \<^verbatim>\<open>new Date()\<close> when the
  session has no exit time (a \<open>Date\<close> object is always truthy, so the clock is read only
  for an absent \<open>exitTime\<close>). \<open>Math.ceil\<close> yields an integer; it is embedded back into
  the reals for the subtraction of the grace period and the final product.
\<close>

definition calculate :: "FlatPerHourCalculator \<Rightarrow> int \<Rightarrow> ParkingSession \<Rightarrow> real" where
  "calculate c now session =
     (let entry = entryTime session;
          exit = (case exitTime session of Some t \<Rightarrow> t | None \<Rightarrow> now);
          minutes = max 0 (of_int \<lceil>real_of_int (exit - entry) / 60000\<rceil> - graceMinutes c);
          hours = max 0 \<lceil>minutes / 60\<rceil>
      in base c + of_int hours * perHour c)"

text \<open>\<^verbatim>\<open>FeeCalculatorFactory.for\<close>: the \<open>default\<close> branch of the switch is unreachable
  for a value of type \<open>VehicleType\<close>.\<close>

fun for_type :: "VehicleType \<Rightarrow> FlatPerHourCalculator" where
  "for_type MOTORCYCLE = newFlatPerHourCalculator 0.5 1.0 15"
| "for_type CAR = newFlatPerHourCalculator 1.0 2.0 10"
| "for_type BUS = newFlatPerHourCalculator 2.0 5.0 0"

section \<open>State of the two repositories\<close>

text \<open>
  \<^verbatim>\<open>InMemorySpotRepo.spots\<close> is an array of references to spot objects, and the allocator
  changes a spot object in place (\<^verbatim>\<open>chosen.status = 'OCCUPIED'\<close>) before it stores the
  reference back with \<^verbatim>\<open>update\<close>. The spot objects therefore live in an explicit store
  \<open>heap\<close>, addressed by references, and \<open>spots\<close> is the array of references.

  \<^verbatim>\<open>InMemorySessionRepo.sessions\<close> only ever grows by \<^verbatim>\<open>push\<close> of the object literal
  built in \<^verbatim>\<open>allocate\<close>, so every slot holds an object of its own and the array is a list
  of session values; a change of a session object in place is a change of its slot.

  The service and the allocator hold the same two repositories, so one state record is
  threaded through all operations. The operations are \<open>async\<close> and each call is awaited:
  they run one after the other, as the single-writer model of the specification says.
\<close>

type_synonym ref = nat

record ParkingState =
  heap :: "ref \<Rightarrow> ParkingSpot"
  spots :: "ref list"
  sessions :: "ParkingSession list"

text \<open>
  The result of an operation: the value it returns (\<open>Inr\<close>) or the error it throws
  (\<open>Inl\<close>), and the state it leaves behind. \<open>await\<close> passes the value and the state of
  a finished call to the rest of the method, and lets a thrown error through.
\<close>

type_synonym 'a outcome = "(error + 'a) \<times> ParkingState"

definition await :: "'a outcome \<Rightarrow> ('a \<Rightarrow> ParkingState \<Rightarrow> 'b outcome) \<Rightarrow> 'b outcome" where
  "await r k = (case r of (Inl e, st) \<Rightarrow> (Inl e, st) | (Inr a, st) \<Rightarrow> k a st)"

text \<open>\<^verbatim>\<open>new InMemorySpotRepo(initial)\<close> with \<^verbatim>\<open>new InMemorySessionRepo()\<close>: the array is
  copied (\<^verbatim>\<open>initial.slice()\<close>), the spot objects are the caller's, one object for each
  element of \<open>initial\<close>. The reference of a spot object is its position in \<open>initial\<close>; no
  other reference is ever in \<open>spots\<close>, so the store is never read beyond them.\<close>

definition newRepos :: "ParkingSpot list \<Rightarrow> ParkingState" where
  "newRepos initial = \<lparr>heap = (\<lambda>r. initial ! r), spots = [0..<length initial], sessions = []\<rparr>"

subsection \<open>\<^verbatim>\<open>InMemorySpotRepo\<close>\<close>

text \<open>The methods the allocator calls. A spot is passed and returned as the reference of
  its object. (\<^verbatim>\<open>add\<close> is called nowhere in the service and is left out.)\<close>

definition listAvailableBySize :: "ParkingState \<Rightarrow> VehicleType \<Rightarrow> ref list" where
  "listAvailableBySize st sz =
     filter (\<lambda>s. status (heap st s) = AVAILABLE \<and> spot_size (heap st s) = sz) (spots st)"

definition findById :: "ParkingState \<Rightarrow> string \<Rightarrow> ref option" where
  "findById st i = find (\<lambda>s. spot_id (heap st s) = i) (spots st)"

text \<open>\<^verbatim>\<open>Array.prototype.findIndex\<close>: the index of the first element that satisfies the
  predicate; \<open>None\<close> stands for the \<open>-1\<close> of JavaScript.\<close>

fun findIndex :: "('a \<Rightarrow> bool) \<Rightarrow> 'a list \<Rightarrow> nat option" where
  "findIndex P [] = None"
| "findIndex P (x # xs) = (if P x then Some 0 else map_option Suc (findIndex P xs))"

definition update :: "ParkingState \<Rightarrow> ref \<Rightarrow> unit outcome" where
  "update st spot =
     (case findIndex (\<lambda>s. spot_id (heap st s) = spot_id (heap st spot)) (spots st) of
        Some idx \<Rightarrow> (Inr (), st\<lparr>spots := (spots st)[idx := spot]\<rparr>)
      | None \<Rightarrow> (Inr (), st))"

subsection \<open>\<^verbatim>\<open>InMemorySessionRepo\<close>\<close>

text \<open>A change in place of the object that \<^verbatim>\<open>Array.prototype.find\<close> returns: the first
  element that satisfies the predicate.\<close>

fun mutateFirst :: "('a \<Rightarrow> bool) \<Rightarrow> ('a \<Rightarrow> 'a) \<Rightarrow> 'a list \<Rightarrow> 'a list" where
  "mutateFirst P f [] = []"
| "mutateFirst P f (x # xs) = (if P x then f x # xs else x # mutateFirst P f xs)"

definition create :: "ParkingState \<Rightarrow> ParkingSession \<Rightarrow> unit outcome" where
  "create st s = (Inr (), st\<lparr>sessions := sessions st @ [s]\<rparr>)"

definition findActiveByPlate :: "ParkingState \<Rightarrow> string \<Rightarrow> ParkingSession option" where
  "findActiveByPlate st p = find (\<lambda>x. plate (vehicle x) = p \<and> exitTime x = None) (sessions st)"

definition close :: "ParkingState \<Rightarrow> string \<Rightarrow> int \<Rightarrow> real \<Rightarrow> unit outcome" where
  "close st i exit amt =
     (Inr (), st\<lparr>sessions := mutateFirst (\<lambda>x. session_id x = i)
                                (\<lambda>s. s\<lparr>exitTime := Some exit, amount := Some amt\<rparr>) (sessions st)\<rparr>)"

section \<open>\<^verbatim>\<open>SimpleAllocator\<close>\<close>

text \<open>
  \<^verbatim>\<open>allocate(vehicle)\<close>, with the generated identifier \<open>uuid\<close> and the clock reading
  \<open>now\<close>. \<^verbatim>\<open>candidates.sort((a,b) => a.distanceRank - b.distanceRank)\<close> is a stable sort
  by \<open>distanceRank\<close> (ECMAScript 2019), which \<open>sort_key\<close> is. The value returned is the
  reference \<open>chosen\<close>.
\<close>

definition allocate :: "ParkingState \<Rightarrow> VehicleDto \<Rightarrow> string \<Rightarrow> int \<Rightarrow> ref outcome" where
  "allocate st v uuid now =
     (let candidates = listAvailableBySize st (type v) in
      if length candidates = 0 then (Inl NoSpace, st)
      else
        let sorted = sort_key (\<lambda>s. distanceRank (heap st s)) candidates;
            chosen = hd sorted;
            st1 = st\<lparr>heap := (heap st)(chosen := (heap st chosen)\<lparr>status := OCCUPIED\<rparr>)\<rparr>
        in await (update st1 chosen) (\<lambda>_ st2.
             let session = \<lparr>session_id = uuid, vehicle = v, spotId = spot_id (heap st2 chosen),
                            entryTime = now, exitTime = None, amount = None\<rparr>
             in await (create st2 session) (\<lambda>_ st3. (Inr chosen, st3))))"

definition release :: "ParkingState \<Rightarrow> string \<Rightarrow> unit outcome" where
  "release st i =
     (case findById st i of
        None \<Rightarrow> (Inr (), st)
      | Some spot \<Rightarrow>
          update (st\<lparr>heap := (heap st)(spot := (heap st spot)\<lparr>status := AVAILABLE\<rparr>)\<rparr>) spot)"

section \<open>\<^verbatim>\<open>ParkingService\<close>\<close>

text \<open>\<^verbatim>\<open>checkIn\<close> returns the pair of \<open>spotId\<close> and \<open>code\<close> of the allocated spot.\<close>

definition checkIn :: "ParkingState \<Rightarrow> VehicleDto \<Rightarrow> string \<Rightarrow> int \<Rightarrow> (string \<times> string) outcome" where
  "checkIn st v uuid now =
     await (allocate st v uuid now) (\<lambda>spot st1. (Inr (spot_id (heap st1 spot), code (heap st1 spot)), st1))"

text \<open>
  \<^verbatim>\<open>checkOut(sessionId)\<close> at the clock reading \<open>now\<close>. The session is looked up in the
  array itself, by \<open>id\<close> alone; \<^verbatim>\<open>session.exitTime = new Date()\<close> changes that object in
  place, and \<open>session\<close> below is the object after the assignment. \<open>calculate\<close> finds
  the exit time set and does not read the clock again.
\<close>

definition checkOut :: "ParkingState \<Rightarrow> string \<Rightarrow> int \<Rightarrow> real outcome" where
  "checkOut st sessionId now =
     (case find (\<lambda>s. session_id s = sessionId) (sessions st) of
        None \<Rightarrow> (Inl NotFound, st)
      | Some found \<Rightarrow>
          let session = found\<lparr>exitTime := Some now\<rparr>;
              st1 = st\<lparr>sessions := mutateFirst (\<lambda>s. session_id s = sessionId)
                                      (\<lambda>s. s\<lparr>exitTime := Some now\<rparr>) (sessions st)\<rparr>;
              calculator = for_type (type (vehicle session));
              amt = calculate calculator now session
          in await (close st1 sessionId now amt) (\<lambda>_ st2.
               await (release st2 (spotId session)) (\<lambda>_ st3. (Inr amt, st3))))"

section \<open>Observations of a state\<close>

text \<open>The spot records as the registry shows them, slot by slot.\<close>

definition inventory :: "ParkingState \<Rightarrow> ParkingSpot list" where
  "inventory st = map (heap st) (spots st)"

text \<open>
  The invariant of the data model, in the words of the specification: a spot is
  \<open>OCCUPIED\<close> if and only if exactly one open session (no \<open>exitTime\<close>) refers to it by
  \<open>spotId\<close>.
\<close>

definition openSessionsOn :: "ParkingState \<Rightarrow> string \<Rightarrow> ParkingSession list" where
  "openSessionsOn st i = filter (\<lambda>x. exitTime x = None \<and> spotId x = i) (sessions st)"

definition occupiedIffOneOpenSession :: "ParkingState \<Rightarrow> bool" where
  "occupiedIffOneOpenSession st =
     list_all (\<lambda>s. (status s = OCCUPIED) = (length (openSessionsOn st (spot_id s)) = 1)) (inventory st)"

text \<open>
  The form in which the invariant is carried through the operations: the \<open>id\<close>s of the
  inventory are pairwise distinct, and every spot is either \<open>OCCUPIED\<close> with exactly one
  open session on it or \<open>AVAILABLE\<close> with none.
\<close>

definition spotsConsistent :: "ParkingState \<Rightarrow> bool" where
  "spotsConsistent st =
     (distinct (map spot_id (inventory st))
      \<and> list_all (\<lambda>s. status s = OCCUPIED \<and> length (openSessionsOn st (spot_id s)) = 1
                     \<or> status s = AVAILABLE \<and> length (openSessionsOn st (spot_id s)) = 0)
           (inventory st))"

text \<open>
  Runs of the service: a sequence of calls of \<open>checkIn\<close> and \<open>checkOut\<close>, each with the
  readings of the environment it takes. A call that throws leaves the state it has
  reached, and the run goes on.
\<close>

datatype event = CheckIn VehicleDto string int | CheckOut string int

fun step :: "ParkingState \<Rightarrow> event \<Rightarrow> ParkingState" where
  "step st (CheckIn v uuid now) = snd (checkIn st v uuid now)"
| "step st (CheckOut sessionId now) = snd (checkOut st sessionId now)"

definition run :: "ParkingState \<Rightarrow> event list \<Rightarrow> ParkingState" where
  "run st evs = foldl step st evs"

text \<open>A call that does not check out a session that is already closed, and a run of such
  calls.\<close>

fun notOfClosedSession :: "ParkingState \<Rightarrow> event \<Rightarrow> bool" where
  "notOfClosedSession st (CheckIn v uuid now) = True"
| "notOfClosedSession st (CheckOut sessionId now) =
     (case find (\<lambda>s. session_id s = sessionId) (sessions st) of
        None \<Rightarrow> True
      | Some s \<Rightarrow> exitTime s = None)"

fun noSecondCheckOut :: "ParkingState \<Rightarrow> event list \<Rightarrow> bool" where
  "noSecondCheckOut st [] = True"
| "noSecondCheckOut st (e # es) = (notOfClosedSession st e \<and> noSecondCheckOut (step st e) es)"

section \<open>Concrete inputs\<close>

text \<open>The session of \<^verbatim>\<open>tests/feeCalculator.test.ts\<close>, with the entry and exit instants left
  open, and rate configurations used below.\<close>

definition testSession :: "int \<Rightarrow> int option \<Rightarrow> ParkingSession" where
  "testSession entry exit =
     \<lparr>session_id = ''t1'', vehicle = \<lparr>plate = ''P'', type = CAR\<rparr>, spotId = ''s'',
      entryTime = entry, exitTime = exit, amount = None\<rparr>"

definition testCalculator :: FlatPerHourCalculator where
  "testCalculator = newFlatPerHourCalculator 1 2 10"

definition negativeGraceCalculator :: FlatPerHourCalculator where
  "negativeGraceCalculator = newFlatPerHourCalculator 1 2 (- 60)"

definition fractionalGraceCalculator :: FlatPerHourCalculator where
  "fractionalGraceCalculator = newFlatPerHourCalculator 1 2 7.5"

text \<open>The inventory and the vehicle of the demonstration in \<^verbatim>\<open>index.ts\<close>, a second
  vehicle, and the two spots of the specification's allocation example.\<close>

definition demoSpots :: "ParkingSpot list" where
  "demoSpots =
     [\<lparr>spot_id = ''s1'', spot_size = CAR, code = ''F1-A1'', status = AVAILABLE, distanceRank = 1\<rparr>,
      \<lparr>spot_id = ''s2'', spot_size = CAR, code = ''F1-A2'', status = AVAILABLE, distanceRank = 2\<rparr>]"

definition specSpots :: "ParkingSpot list" where
  "specSpots =
     [\<lparr>spot_id = ''s1'', spot_size = CAR, code = ''S1'', status = AVAILABLE, distanceRank = 2\<rparr>,
      \<lparr>spot_id = ''s2'', spot_size = CAR, code = ''S2'', status = AVAILABLE, distanceRank = 1\<rparr>]"

definition demoCar :: VehicleDto where
  "demoCar = \<lparr>plate = ''ABC123'', type = CAR\<rparr>"

definition otherCar :: VehicleDto where
  "otherCar = \<lparr>plate = ''XYZ789'', type = CAR\<rparr>"

definition demoBus :: VehicleDto where
  "demoBus = \<lparr>plate = ''BUS001'', type = BUS\<rparr>"

text \<open>
  The run of the demonstration: check-in of \<open>demoCar\<close> at instant \<open>0\<close> with the generated
  identifier \<open>x1\<close>, and check-out of \<open>x1\<close> thirty minutes later. Then two continuations:
  a second check-out of \<open>x1\<close> at \<open>200\<close> minutes; and a check-in of \<open>otherCar\<close> at \<open>60\<close>
  minutes with the identifier \<open>x2\<close>, followed by a second check-out of \<open>x1\<close> at \<open>120\<close>
  minutes.
\<close>

definition demoCheckedIn :: ParkingState where
  "demoCheckedIn = snd (checkIn (newRepos demoSpots) demoCar ''x1'' 0)"

definition demoCheckedOut :: ParkingState where
  "demoCheckedOut = snd (checkOut demoCheckedIn ''x1'' 1800000)"

definition demoCheckedOutTwice :: ParkingState where
  "demoCheckedOutTwice = snd (checkOut demoCheckedOut ''x1'' 12000000)"

definition demoReused :: ParkingState where
  "demoReused = snd (checkIn demoCheckedOut otherCar ''x2'' 3600000)"

definition demoReusedCheckedOutAgain :: ParkingState where
  "demoReusedCheckedOutAgain = snd (checkOut demoReused ''x1'' 7200000)"

text \<open>The second continuation as a run from the inventory of the demonstration.\<close>

definition demoRun :: "event list" where
  "demoRun = [CheckIn demoCar ''x1'' 0, CheckOut ''x1'' 1800000,
              CheckIn otherCar ''x2'' 3600000, CheckOut ''x1'' 7200000]"

text \<open>A session object that carries the identifier \<open>x1\<close> again.\<close>

definition duplicateSession :: ParkingSession where
  "duplicateSession =
     \<lparr>session_id = ''x1'', vehicle = otherCar, spotId = ''s2'',
      entryTime = 60000, exitTime = None, amount = None\<rparr>"

text \<open>An inventory in which two spot objects carry the same \<open>id\<close>: a bus spot and,
  after it, a car spot.\<close>

definition duplicateIdSpots :: "ParkingSpot list" where
  "duplicateIdSpots =
     [\<lparr>spot_id = ''s1'', spot_size = BUS, code = ''B1'', status = AVAILABLE, distanceRank = 5\<rparr>,
      \<lparr>spot_id = ''s1'', spot_size = CAR, code = ''C1'', status = AVAILABLE, distanceRank = 1\<rparr>]"

text \<open>The run of the demonstration with a clock that is set back between the two calls:
  check-in at the reading \<open>1000\<close>, check-out at the reading \<open>500\<close>.\<close>

definition clockBackCheckedIn :: ParkingState where
  "clockBackCheckedIn = snd (checkIn (newRepos demoSpots) demoCar ''x1'' 1000)"

definition clockBackCheckedOut :: ParkingState where
  "clockBackCheckedOut = snd (checkOut clockBackCheckedIn ''x1'' 500)"

section \<open>The fee formula\<close>

lemma calculate_unfold:
  "calculate c now s =
     base c + of_int (max 0 \<lceil>max 0 (of_int \<lceil>real_of_int
        ((case exitTime s of Some t \<Rightarrow> t | None \<Rightarrow> now) - entryTime s) / 60000\<rceil> - graceMinutes c) / 60\<rceil>)
       * perHour c"
  unfolding calculate_def Let_def by (rule refl)

lemma billed_minutes_nonneg: "0 \<le> \<lceil>max 0 (m::real) / 60\<rceil>"
proof -
  have "0 \<le> max 0 m / 60" by simp
  thus ?thesis by (simp add: le_ceiling_iff del: zero_le_divide_iff)
qed

lemma elapsed_nonpositive:
  assumes "x \<le> (e::int)"
  shows "\<lceil>real_of_int (x - e) / 60000\<rceil> \<le> 0"
proof -
  have "real_of_int (x - e) / 60000 \<le> 0" using assms by simp
  thus ?thesis by (simp only: ceiling_le_iff of_int_0)
qed

text \<open>
  C3, as amended. For every entry instant, exit instant and rate configuration,
  \<open>calculate\<close> returns \<open>base + ceil(max(0, ceil(elapsed minutes) - graceMinutes) / 60) * perHour\<close>,
  where the exit instant is the session's \<open>exitTime\<close>, or the clock when it is absent.
  When \<open>graceMinutes\<close> is not negative, a zero or negative elapsed time yields exactly
  \<open>base\<close>.
\<close>

theorem calculate_formula:
  fixes c :: FlatPerHourCalculator and s :: ParkingSession and now :: int
  defines "x \<equiv> (case exitTime s of Some t \<Rightarrow> t | None \<Rightarrow> now)"
  shows "calculate c now s =
           base c + of_int \<lceil>max 0 (of_int \<lceil>real_of_int (x - entryTime s) / 60000\<rceil> - graceMinutes c) / 60\<rceil>
             * perHour c
         \<and> (0 \<le> graceMinutes c \<longrightarrow> x \<le> entryTime s \<longrightarrow> calculate c now s = base c)"
proof (intro conjI impI)
  define m where "m = max 0 (of_int \<lceil>real_of_int (x - entryTime s) / 60000\<rceil> - graceMinutes c)"
  have c: "calculate c now s = base c + of_int (max 0 \<lceil>m / 60\<rceil>) * perHour c"
    unfolding m_def x_def by (rule calculate_unfold)
  have "0 \<le> \<lceil>m / 60\<rceil>" unfolding m_def by (rule billed_minutes_nonneg)
  hence "max 0 \<lceil>m / 60\<rceil> = \<lceil>m / 60\<rceil>" by (rule max_absorb2)
  thus "calculate c now s = base c + of_int \<lceil>m / 60\<rceil> * perHour c" using c by simp
  assume g: "0 \<le> graceMinutes c" and e: "x \<le> entryTime s"
  define el where "el = \<lceil>real_of_int (x - entryTime s) / 60000\<rceil>"
  have "el \<le> 0" unfolding el_def using e by (rule elapsed_nonpositive)
  hence "real_of_int el - graceMinutes c \<le> 0" using g by simp
  hence "m = 0" unfolding m_def el_def by simp
  thus "calculate c now s = base c" using c by simp
qed

theorem calculate_formula_witness:
  "(0::real) \<le> graceMinutes testCalculator \<and> (0::int) \<le> entryTime (testSession 0 (Some 0))
   \<and> calculate testCalculator 5 (testSession 0 (Some 0)) = 1"
  using calculate_formula [where c = testCalculator and s = "testSession 0 (Some 0)" and now = 5]
  by (simp add: testCalculator_def testSession_def newFlatPerHourCalculator_def)

text \<open>
  The claim C3 as it is written fails for a negative grace period: with \<open>base = 1\<close>,
  \<open>perHour = 2\<close> and \<open>graceMinutes = -60\<close>, a session whose exit instant is its entry
  instant is billed one hour, \<open>3\<close>, not \<open>base\<close>.
\<close>

theorem calculate_zero_elapsed_counterexample:
  "calculate negativeGraceCalculator 0 (testSession 0 (Some 0)) = 3
   \<and> base negativeGraceCalculator = 1"
  by (simp add: calculate_def negativeGraceCalculator_def testSession_def newFlatPerHourCalculator_def)

text \<open>
  C8, as amended. For every rate configuration whose \<open>graceMinutes\<close> is a whole number
  and every duration \<open>d\<close> (in minutes, between the entry and the exit instant): if
  \<open>0 < d \<le> graceMinutes\<close> then \<open>calculate\<close> returns exactly \<open>base\<close>, and if
  \<open>graceMinutes < d \<le> graceMinutes + 60\<close> then it returns exactly \<open>base + perHour\<close>.
\<close>

theorem calculate_grace_boundaries:
  assumes g: "graceMinutes c \<in> \<int>"
    and x: "exitTime s = Some x"
    and d: "d = real_of_int (x - entryTime s) / 60000"
  shows "(0 < d \<and> d \<le> graceMinutes c \<longrightarrow> calculate c now s = base c)
       \<and> (graceMinutes c < d \<and> d \<le> graceMinutes c + 60 \<longrightarrow> calculate c now s = base c + perHour c)"
proof (intro conjI impI)
  obtain k :: int where k: "graceMinutes c = of_int k" using g by (rule Ints_cases)
  have c: "calculate c now s =
             base c + of_int (max 0 \<lceil>max 0 (of_int \<lceil>d\<rceil> - graceMinutes c) / 60\<rceil>) * perHour c"
    unfolding d using calculate_unfold [of c now s] x by simp
  {
    assume "0 < d \<and> d \<le> graceMinutes c"
    hence "d \<le> of_int k" using k by simp
    hence "\<lceil>d\<rceil> \<le> k" by (simp only: ceiling_le_iff)
    hence "of_int \<lceil>d\<rceil> - graceMinutes c \<le> 0" using k by simp
    hence "max 0 (of_int \<lceil>d\<rceil> - graceMinutes c) = 0" by simp
    thus "calculate c now s = base c" using c by simp
  }
  {
    assume b: "graceMinutes c < d \<and> d \<le> graceMinutes c + 60"
    hence "d \<le> of_int (k + 60)" using k by simp
    hence u: "\<lceil>d\<rceil> \<le> k + 60" by (simp only: ceiling_le_iff)
    have "of_int k < d" using k b by simp
    hence l: "k < \<lceil>d\<rceil>" by (simp only: less_ceiling_iff)
    have m: "max 0 (of_int \<lceil>d\<rceil> - graceMinutes c) = real_of_int (\<lceil>d\<rceil> - k)"
      using l k by simp
    have "\<lceil>real_of_int (\<lceil>d\<rceil> - k) / 60\<rceil> = 1"
      using l u by (simp add: ceiling_eq_iff)
    thus "calculate c now s = base c + perHour c" using c m by simp
  }
qed

theorem calculate_grace_boundaries_witness:
  "graceMinutes testCalculator \<in> \<int>
   \<and> (0::real) < 5 \<and> (5::real) \<le> graceMinutes testCalculator
   \<and> calculate testCalculator 0 (testSession 0 (Some 300000)) = 1
   \<and> graceMinutes testCalculator < 30 \<and> (30::real) \<le> graceMinutes testCalculator + 60
   \<and> calculate testCalculator 0 (testSession 0 (Some 1800000)) = 3"
proof -
  have g: "graceMinutes testCalculator \<in> \<int>"
    by (simp add: testCalculator_def newFlatPerHourCalculator_def)
  have a: "calculate testCalculator 0 (testSession 0 (Some 300000)) = 1"
    using calculate_grace_boundaries [OF g, of "testSession 0 (Some 300000)" 300000 5 0]
    by (simp add: testCalculator_def testSession_def newFlatPerHourCalculator_def)
  have b: "calculate testCalculator 0 (testSession 0 (Some 1800000)) = 3"
    using calculate_grace_boundaries [OF g, of "testSession 0 (Some 1800000)" 1800000 30 0]
    by (simp add: testCalculator_def testSession_def newFlatPerHourCalculator_def)
  show ?thesis using g a b by (simp add: testCalculator_def newFlatPerHourCalculator_def)
qed

text \<open>
  The claim C8 as it is written fails for a grace period that is not a whole number of
  minutes, because the elapsed minutes are rounded up before the grace period is taken
  off: with \<open>graceMinutes = 7.5\<close>, a stay of \<open>7.2\<close> minutes (\<open>432000\<close> ms) is within the
  grace period and is billed one hour, \<open>3\<close>, not \<open>base = 1\<close>.
\<close>

theorem calculate_grace_counterexample:
  "(0::real) < 432000 / 60000
   \<and> (432000::real) / 60000 \<le> graceMinutes fractionalGraceCalculator
   \<and> calculate fractionalGraceCalculator 0 (testSession 0 (Some 432000)) = 3
   \<and> base fractionalGraceCalculator = 1"
  by (simp add: calculate_def fractionalGraceCalculator_def testSession_def
      newFlatPerHourCalculator_def ceiling_eq_iff)

text \<open>
  C10. For a fixed entry instant, a rate configuration whose \<open>perHour\<close> is not negative,
  and exit instants \<open>t1 \<le> t2\<close>, the fee for the exit instant \<open>t1\<close> is at most the fee
  for the exit instant \<open>t2\<close>.
\<close>

theorem calculate_monotone:
  assumes t: "t1 \<le> t2" and p: "0 \<le> perHour c"
  shows "calculate c now (s\<lparr>exitTime := Some t1\<rparr>) \<le> calculate c now' (s\<lparr>exitTime := Some t2\<rparr>)"
proof -
  define m where
    "m = (\<lambda>t. max 0 (of_int \<lceil>real_of_int (t - entryTime s) / 60000\<rceil> - graceMinutes c))"
  have "real_of_int (t1 - entryTime s) / 60000 \<le> real_of_int (t2 - entryTime s) / 60000"
    using t by simp
  hence "\<lceil>real_of_int (t1 - entryTime s) / 60000\<rceil> \<le> \<lceil>real_of_int (t2 - entryTime s) / 60000\<rceil>"
    by (rule ceiling_mono)
  hence "m t1 \<le> m t2" unfolding m_def by simp
  hence "m t1 / 60 \<le> m t2 / 60" by simp
  hence "\<lceil>m t1 / 60\<rceil> \<le> \<lceil>m t2 / 60\<rceil>" by (rule ceiling_mono)
  hence "max 0 \<lceil>m t1 / 60\<rceil> \<le> max 0 \<lceil>m t2 / 60\<rceil>" by simp
  hence "real_of_int (max 0 \<lceil>m t1 / 60\<rceil>) \<le> real_of_int (max 0 \<lceil>m t2 / 60\<rceil>)"
    by (simp only: of_int_le_iff)
  hence "real_of_int (max 0 \<lceil>m t1 / 60\<rceil>) * perHour c \<le> real_of_int (max 0 \<lceil>m t2 / 60\<rceil>) * perHour c"
    using p by (rule mult_right_mono)
  moreover have "calculate c now (s\<lparr>exitTime := Some t1\<rparr>) =
      base c + real_of_int (max 0 \<lceil>m t1 / 60\<rceil>) * perHour c"
    unfolding m_def using calculate_unfold [of c now "s\<lparr>exitTime := Some t1\<rparr>"] by simp
  moreover have "calculate c now' (s\<lparr>exitTime := Some t2\<rparr>) =
      base c + real_of_int (max 0 \<lceil>m t2 / 60\<rceil>) * perHour c"
    unfolding m_def using calculate_unfold [of c now' "s\<lparr>exitTime := Some t2\<rparr>"] by simp
  ultimately show ?thesis by simp
qed

theorem calculate_monotone_witness:
  "(300000::int) \<le> 1800000 \<and> 0 \<le> perHour testCalculator
   \<and> calculate testCalculator 0 ((testSession 0 None)\<lparr>exitTime := Some 300000\<rparr>)
       \<le> calculate testCalculator 0 ((testSession 0 None)\<lparr>exitTime := Some 1800000\<rparr>)"
proof -
  have t: "(300000::int) \<le> 1800000" by simp
  have p: "0 \<le> perHour testCalculator"
    by (simp add: testCalculator_def newFlatPerHourCalculator_def)
  show ?thesis
    using t p calculate_monotone [OF t p, of 0 "testSession 0 None" 0] by simp
qed

section \<open>First match in an array\<close>

lemma mutateFirst_none: "\<forall>x\<in>set xs. \<not> P x \<Longrightarrow> mutateFirst P f xs = xs"
  by (induction xs) auto

lemma mutateFirst_at:
  "k < length xs \<Longrightarrow> P (xs ! k) \<Longrightarrow> \<forall>j<k. \<not> P (xs ! j) \<Longrightarrow> mutateFirst P f xs = xs[k := f (xs ! k)]"
proof (induction xs arbitrary: k)
  case Nil
  then show ?case by simp
next
  case (Cons x xs)
  show ?case
  proof (cases k)
    case 0
    with Cons.prems show ?thesis by simp
  next
    case (Suc n)
    with Cons.prems have "\<not> P x" by auto
    moreover have "mutateFirst P f xs = xs[n := f (xs ! n)]"
      using Cons.prems Suc by (intro Cons.IH) auto
    ultimately show ?thesis using Suc by simp
  qed
qed

lemma findIndex_first:
  "k < length xs \<Longrightarrow> P (xs ! k) \<Longrightarrow> \<forall>j<k. \<not> P (xs ! j) \<Longrightarrow> findIndex P xs = Some k"
proof (induction xs arbitrary: k)
  case Nil
  then show ?case by simp
next
  case (Cons x xs)
  show ?case
  proof (cases k)
    case 0
    with Cons.prems show ?thesis by simp
  next
    case (Suc n)
    with Cons.prems have "\<not> P x" by auto
    moreover have "findIndex P xs = Some n"
      using Cons.prems Suc by (intro Cons.IH) auto
    ultimately show ?thesis using Suc by simp
  qed
qed

lemma find_first:
  "k < length xs \<Longrightarrow> P (xs ! k) \<Longrightarrow> \<forall>j<k. \<not> P (xs ! j) \<Longrightarrow> find P xs = Some (xs ! k)"
proof (induction xs arbitrary: k)
  case Nil
  then show ?case by simp
next
  case (Cons x xs)
  show ?case
  proof (cases k)
    case 0
    with Cons.prems show ?thesis by simp
  next
    case (Suc n)
    with Cons.prems have "\<not> P x" by auto
    moreover have "find P xs = Some (xs ! n)"
      using Cons.prems Suc by (intro Cons.IH) auto
    ultimately show ?thesis using Suc by simp
  qed
qed

lemma findIndex_ex:
  "\<exists>x\<in>set xs. P x \<Longrightarrow> \<exists>k<length xs. findIndex P xs = Some k \<and> P (xs ! k) \<and> (\<forall>j<k. \<not> P (xs ! j))"
proof (induction xs)
  case Nil
  then show ?case by simp
next
  case (Cons x xs)
  show ?case
  proof (cases "P x")
    case True
    hence "findIndex P (x # xs) = Some 0 \<and> P ((x # xs) ! 0) \<and> (\<forall>j<0. \<not> P ((x # xs) ! j))" by simp
    thus ?thesis by blast
  next
    case False
    with Cons.prems have "\<exists>x\<in>set xs. P x" by simp
    then obtain k where k: "k < length xs" "findIndex P xs = Some k" "P (xs ! k)" "\<forall>j<k. \<not> P (xs ! j)"
      using Cons.IH by blast
    have "\<forall>j<Suc k. \<not> P ((x # xs) ! j)"
    proof (intro allI impI)
      fix j assume "j < Suc k"
      thus "\<not> P ((x # xs) ! j)" using False k(4) by (cases j) auto
    qed
    hence "Suc k < length (x # xs) \<and> findIndex P (x # xs) = Some (Suc k) \<and> P ((x # xs) ! Suc k)
        \<and> (\<forall>j<Suc k. \<not> P ((x # xs) ! j))"
      using k False by simp
    thus ?thesis by blast
  qed
qed

lemma find_findIndex:
  "find P xs = Some x \<Longrightarrow> \<exists>k<length xs. findIndex P xs = Some k \<and> xs ! k = x \<and> P x"
proof (induction xs)
  case Nil
  then show ?case by simp
next
  case (Cons y ys)
  show ?case
  proof (cases "P y")
    case True
    with Cons.prems show ?thesis by auto
  next
    case False
    with Cons.prems have "find P ys = Some x" by simp
    then obtain k where "k < length ys" "findIndex P ys = Some k" "ys ! k = x" "P x"
      using Cons.IH by blast
    hence "Suc k < length (y # ys) \<and> findIndex P (y # ys) = Some (Suc k) \<and> (y # ys) ! Suc k = x \<and> P x"
      using False by simp
    thus ?thesis by blast
  qed
qed

lemma hd_filter_index:
  "filter P xs \<noteq> [] \<Longrightarrow> \<exists>k<length xs. xs ! k = hd (filter P xs) \<and> P (xs ! k) \<and> (\<forall>j<k. \<not> P (xs ! j))"
proof (induction xs)
  case Nil
  then show ?case by simp
next
  case (Cons x xs)
  show ?case
  proof (cases "P x")
    case True
    hence "(x # xs) ! 0 = hd (filter P (x # xs)) \<and> P ((x # xs) ! 0) \<and> (\<forall>j<0. \<not> P ((x # xs) ! j))"
      by simp
    thus ?thesis by blast
  next
    case False
    with Cons.prems have "filter P xs \<noteq> []" by simp
    then obtain k where k: "k < length xs" "xs ! k = hd (filter P xs)" "P (xs ! k)" "\<forall>j<k. \<not> P (xs ! j)"
      using Cons.IH by blast
    have "\<forall>j<Suc k. \<not> P ((x # xs) ! j)"
    proof (intro allI impI)
      fix j assume "j < Suc k"
      thus "\<not> P ((x # xs) ! j)" using False k(4) by (cases j) auto
    qed
    hence "Suc k < length (x # xs) \<and> (x # xs) ! Suc k = hd (filter P (x # xs)) \<and> P ((x # xs) ! Suc k)
        \<and> (\<forall>j<Suc k. \<not> P ((x # xs) ! j))"
      using k False by simp
    thus ?thesis by blast
  qed
qed

lemma find_append_fresh:
  "\<forall>x\<in>set xs. \<not> P x \<Longrightarrow> P y \<Longrightarrow> find P (xs @ [y]) = Some y"
  by (induction xs) auto

lemma mutateFirst_append_fresh:
  "\<forall>x\<in>set xs. \<not> P x \<Longrightarrow> P y \<Longrightarrow> mutateFirst P f (xs @ [y]) = xs @ [f y]"
  by (induction xs) auto

text \<open>The head of a stably sorted list is the first of the elements with the least key.\<close>

lemma hd_sort_key_min:
  assumes "xs \<noteq> []"
  shows "hd (sort_key f xs) \<in> set xs"
    and "\<forall>y\<in>set xs. f (hd (sort_key f xs)) \<le> f y"
    and "hd (sort_key f xs) = hd (filter (\<lambda>y. f y = f (hd (sort_key f xs))) xs)"
proof -
  define ys where "ys = sort_key f xs"
  have ne: "ys \<noteq> []" using assms unfolding ys_def by (metis length_0_conv length_sort)
  then obtain z zs where zs: "ys = z # zs" by (cases ys) auto
  have set: "set ys = set xs" unfolding ys_def by simp
  have srt: "sorted (map f ys)" unfolding ys_def by simp
  show "hd (sort_key f xs) \<in> set xs" using zs set unfolding ys_def[symmetric] by auto
  show "\<forall>y\<in>set xs. f (hd (sort_key f xs)) \<le> f y"
    using srt zs set unfolding ys_def[symmetric] by auto
  have "filter (\<lambda>y. f y = f z) xs = filter (\<lambda>y. f y = f z) ys"
    unfolding ys_def by (rule sort_key_stable[symmetric])
  also have "\<dots> = z # filter (\<lambda>y. f y = f z) zs" using zs by simp
  finally show "hd (sort_key f xs) = hd (filter (\<lambda>y. f y = f (hd (sort_key f xs))) xs)"
    using zs unfolding ys_def[symmetric] by simp
qed

lemma map_fun_upd_distinct:
  "distinct xs \<Longrightarrow> k < length xs \<Longrightarrow> map (h(xs ! k := v)) xs = (map h xs)[k := v]"
  by (auto simp: list_eq_iff_nth_eq nth_list_update nth_eq_iff_index_eq)

section \<open>The spot registry\<close>

lemma update_own_slot:
  assumes k: "k < length (spots st)" "spots st ! k = spot"
    and first: "\<forall>j<k. spot_id (heap st (spots st ! j)) \<noteq> spot_id (heap st spot)"
  shows "update st spot = (Inr (), st)"
proof -
  have "findIndex (\<lambda>s. spot_id (heap st s) = spot_id (heap st spot)) (spots st) = Some k"
    using k first by (intro findIndex_first) auto
  moreover have "(spots st)[k := spot] = spots st" using k by (metis list_update_id)
  ultimately show ?thesis unfolding update_def by simp
qed

lemma distinct_ids_nth:
  assumes "distinct (map spot_id (inventory st))" "j < length (spots st)" "k < length (spots st)" "j \<noteq> k"
  shows "spot_id (heap st (spots st ! j)) \<noteq> spot_id (heap st (spots st ! k))"
proof -
  have len: "j < length (map spot_id (inventory st))" "k < length (map spot_id (inventory st))"
    using assms(2,3) by (simp_all add: inventory_def)
  have "map spot_id (inventory st) ! j \<noteq> map spot_id (inventory st) ! k"
    using nth_eq_iff_index_eq [OF assms(1) len] assms(4) by blast
  thus ?thesis using assms(2,3) by (simp add: inventory_def)
qed

lemma distinct_ids_refs: "distinct (map spot_id (inventory st)) \<Longrightarrow> distinct (spots st)"
  unfolding inventory_def by (simp add: distinct_map)

text \<open>After \<open>update\<close> of a spot that is in the array, a lookup of its \<open>id\<close> finds it.\<close>

lemma update_registers:
  assumes "spot \<in> set (spots st)"
  shows "\<exists>st'. update st spot = (Inr (), st') \<and> heap st' = heap st \<and> sessions st' = sessions st
           \<and> findById st' (spot_id (heap st spot)) = Some spot"
proof -
  define P where "P = (\<lambda>s. spot_id (heap st s) = spot_id (heap st spot))"
  have "\<exists>x\<in>set (spots st). P x" using assms unfolding P_def by blast
  then obtain k where k: "k < length (spots st)" "findIndex P (spots st) = Some k"
      "\<forall>j<k. \<not> P (spots st ! j)"
    using findIndex_ex [of "spots st" P] by blast
  define st' where "st' = st\<lparr>spots := (spots st)[k := spot]\<rparr>"
  have u: "update st spot = (Inr (), st')"
    unfolding update_def st'_def using k(2) unfolding P_def by simp
  have "find P ((spots st)[k := spot]) = Some (((spots st)[k := spot]) ! k)"
    using k(1,3) by (intro find_first) (auto simp: P_def)
  hence "findById st' (spot_id (heap st spot)) = Some spot"
    unfolding findById_def st'_def P_def using k(1) by simp
  thus ?thesis using u unfolding st'_def by simp
qed

lemma findById_status:
  "findById (st\<lparr>heap := (heap st)(r := (heap st r)\<lparr>status := x\<rparr>)\<rparr>) i = findById st i"
proof -
  have "(\<lambda>s. spot_id (((heap st)(r := (heap st r)\<lparr>status := x\<rparr>)) s) = i) = (\<lambda>s. spot_id (heap st s) = i)"
    by (auto simp: fun_eq_iff)
  thus ?thesis unfolding findById_def by simp
qed

lemma findById_sessions: "findById (st\<lparr>sessions := xs\<rparr>) i = findById st i"
  unfolding findById_def by simp

text \<open>\<open>release\<close> of an \<open>id\<close> that the registry finds changes the status of that spot object
  and nothing else.\<close>

lemma release_registered:
  assumes "findById st i = Some spot"
  shows "release st i = (Inr (), st\<lparr>heap := (heap st)(spot := (heap st spot)\<lparr>status := AVAILABLE\<rparr>)\<rparr>)"
proof -
  define st' where "st' = st\<lparr>heap := (heap st)(spot := (heap st spot)\<lparr>status := AVAILABLE\<rparr>)\<rparr>"
  obtain k where k: "k < length (spots st)"
      "findIndex (\<lambda>s. spot_id (heap st s) = i) (spots st) = Some k" "spots st ! k = spot"
      "spot_id (heap st spot) = i"
    using find_findIndex [OF assms [unfolded findById_def]] by blast
  have "(\<lambda>s. spot_id (heap st' s) = spot_id (heap st' spot)) = (\<lambda>s. spot_id (heap st s) = i)"
    unfolding st'_def using k(4) by (auto simp: fun_eq_iff)
  hence "findIndex (\<lambda>s. spot_id (heap st' s) = spot_id (heap st' spot)) (spots st') = Some k"
    using k(2) unfolding st'_def by simp
  moreover have "(spots st')[k := spot] = spots st'"
    using list_update_id [of "spots st" k] k(3) unfolding st'_def by simp
  ultimately have "update st' spot = (Inr (), st')" unfolding update_def by simp
  thus ?thesis unfolding release_def st'_def using assms by simp
qed

section \<open>Allocation\<close>

text \<open>
  C7. For every vehicle whose type has no \<open>AVAILABLE\<close> spot of its size in the registry,
  \<open>allocate\<close> fails with \<open>NoSpace\<close> and leaves the whole state as it was: no spot is
  changed and no session is created. \<open>checkIn\<close> passes the failure on.
\<close>

theorem allocate_NoSpace:
  assumes "\<forall>s\<in>set (inventory st). \<not> (status s = AVAILABLE \<and> spot_size s = type v)"
  shows "allocate st v uuid now = (Inl NoSpace, st) \<and> checkIn st v uuid now = (Inl NoSpace, st)"
proof -
  have "listAvailableBySize st (type v) = []"
    using assms unfolding listAvailableBySize_def inventory_def by (auto simp: filter_empty_conv)
  hence "allocate st v uuid now = (Inl NoSpace, st)" unfolding allocate_def by simp
  thus ?thesis unfolding checkIn_def await_def by simp
qed

theorem allocate_NoSpace_witness:
  "\<not> (\<exists>s\<in>set (inventory (newRepos specSpots)). status s = AVAILABLE \<and> spot_size s = type demoBus)
   \<and> allocate (newRepos specSpots) demoBus ''x1'' 0 = (Inl NoSpace, newRepos specSpots)
   \<and> checkIn (newRepos specSpots) demoBus ''x1'' 0 = (Inl NoSpace, newRepos specSpots)"
proof -
  have h: "\<forall>s\<in>set (inventory (newRepos specSpots)). \<not> (status s = AVAILABLE \<and> spot_size s = type demoBus)"
    by code_simp
  show ?thesis using h allocate_NoSpace [OF h, of "''x1''" 0] by simp
qed

text \<open>What a successful \<open>allocate\<close> does when the \<open>id\<close>s of the inventory are pairwise
  distinct: the slot it chooses, and the state it leaves.\<close>

lemma allocate_slot:
  assumes ids: "distinct (map spot_id (inventory st))"
    and avail: "\<exists>s\<in>set (inventory st). status s = AVAILABLE \<and> spot_size s = type v"
  shows "\<exists>k<length (inventory st).
           fst (allocate st v uuid now) = Inr (spots st ! k)
         \<and> status (inventory st ! k) = AVAILABLE \<and> spot_size (inventory st ! k) = type v
         \<and> (\<forall>j<length (inventory st).
               status (inventory st ! j) = AVAILABLE \<and> spot_size (inventory st ! j) = type v
               \<longrightarrow> distanceRank (inventory st ! k) \<le> distanceRank (inventory st ! j)
                   \<and> (j < k \<longrightarrow> distanceRank (inventory st ! k) < distanceRank (inventory st ! j)))
         \<and> inventory (snd (allocate st v uuid now))
             = (inventory st)[k := (inventory st ! k)\<lparr>status := OCCUPIED\<rparr>]
         \<and> sessions (snd (allocate st v uuid now))
             = sessions st @ [\<lparr>session_id = uuid, vehicle = v, spotId = spot_id (inventory st ! k),
                                entryTime = now, exitTime = None, amount = None\<rparr>]"
proof -
  define C where "C = (\<lambda>s. status (heap st s) = AVAILABLE \<and> spot_size (heap st s) = type v)"
  define f where "f = (\<lambda>s. distanceRank (heap st s))"
  define cands where "cands = listAvailableBySize st (type v)"
  define chosen where "chosen = hd (sort_key f cands)"
  have cands: "cands = filter C (spots st)"
    unfolding cands_def C_def listAvailableBySize_def by (rule refl)
  have ne: "cands \<noteq> []"
    using avail unfolding cands inventory_def C_def by (auto simp: filter_empty_conv)
  have ch_in: "chosen \<in> set cands" unfolding chosen_def using ne by (rule hd_sort_key_min(1))
  have ch_min: "\<forall>y\<in>set cands. f chosen \<le> f y" unfolding chosen_def using ne by (rule hd_sort_key_min(2))
  have "chosen = hd (filter (\<lambda>y. f y = f chosen) cands)"
    unfolding chosen_def using ne by (rule hd_sort_key_min(3))
  hence ch_hd: "chosen = hd (filter (\<lambda>s. C s \<and> f s = f chosen) (spots st))"
    unfolding cands by (simp add: conj_commute)
  have "chosen \<in> set (filter (\<lambda>s. C s \<and> f s = f chosen) (spots st))"
    using ch_in unfolding cands by simp
  hence "filter (\<lambda>s. C s \<and> f s = f chosen) (spots st) \<noteq> []"
    by (metis empty_iff empty_set)
  then obtain k where k: "k < length (spots st)" "spots st ! k = chosen" "C (spots st ! k)"
      and before: "\<forall>j<k. \<not> (C (spots st ! j) \<and> f (spots st ! j) = f chosen)"
    using hd_filter_index [of "\<lambda>s. C s \<and> f s = f chosen" "spots st"] ch_hd by auto
  define st1 where "st1 = st\<lparr>heap := (heap st)(chosen := (heap st chosen)\<lparr>status := OCCUPIED\<rparr>)\<rparr>"
  have id1: "spot_id (heap st1 s) = spot_id (heap st s)" for s unfolding st1_def by simp
  have sp1: "spots st1 = spots st" unfolding st1_def by simp
  have "\<forall>j<k. spot_id (heap st1 (spots st1 ! j)) \<noteq> spot_id (heap st1 chosen)"
    using distinct_ids_nth [OF ids _ k(1)] k(1,2) unfolding id1 sp1 by auto
  hence upd: "update st1 chosen = (Inr (), st1)"
    using k(1,2) sp1 by (intro update_own_slot [where k = k]) auto
  have alloc: "allocate st v uuid now =
      (Inr chosen, st1\<lparr>sessions := sessions st1 @ [\<lparr>session_id = uuid, vehicle = v,
          spotId = spot_id (heap st1 chosen), entryTime = now, exitTime = None, amount = None\<rparr>]\<rparr>)"
    unfolding allocate_def cands_def[symmetric] f_def[symmetric] Let_def chosen_def[symmetric]
      st1_def[symmetric]
    using ne upd by (simp add: await_def create_def)
  have inv1: "inventory st1 = (inventory st)[k := (inventory st ! k)\<lparr>status := OCCUPIED\<rparr>]"
    unfolding inventory_def st1_def using map_fun_upd_distinct [OF distinct_ids_refs [OF ids] k(1)] k
    by simp
  have ranks: "\<forall>j<length (inventory st).
               status (inventory st ! j) = AVAILABLE \<and> spot_size (inventory st ! j) = type v
               \<longrightarrow> distanceRank (inventory st ! k) \<le> distanceRank (inventory st ! j)
                   \<and> (j < k \<longrightarrow> distanceRank (inventory st ! k) < distanceRank (inventory st ! j))"
  proof (intro allI impI)
    fix j assume j: "j < length (inventory st)"
      and c: "status (inventory st ! j) = AVAILABLE \<and> spot_size (inventory st ! j) = type v"
    have jl: "j < length (spots st)" using j by (simp add: inventory_def)
    hence cj: "C (spots st ! j)" using c unfolding C_def inventory_def by simp
    hence "spots st ! j \<in> set cands" unfolding cands using jl by simp
    hence le: "f chosen \<le> f (spots st ! j)" using ch_min by blast
    have "j < k \<longrightarrow> f (spots st ! j) \<noteq> f chosen" using before cj by blast
    thus "distanceRank (inventory st ! k) \<le> distanceRank (inventory st ! j)
        \<and> (j < k \<longrightarrow> distanceRank (inventory st ! k) < distanceRank (inventory st ! j))"
      using le jl k(1,2) unfolding f_def inventory_def by auto
  qed
  have "fst (allocate st v uuid now) = Inr (spots st ! k)" using alloc k(2) by simp
  moreover have "status (inventory st ! k) = AVAILABLE \<and> spot_size (inventory st ! k) = type v"
    using k(1,3) unfolding C_def inventory_def by simp
  moreover have "inventory (snd (allocate st v uuid now))
             = (inventory st)[k := (inventory st ! k)\<lparr>status := OCCUPIED\<rparr>]"
    using inv1 unfolding alloc by (simp add: inventory_def)
  moreover have "sessions (snd (allocate st v uuid now))
             = sessions st @ [\<lparr>session_id = uuid, vehicle = v, spotId = spot_id (inventory st ! k),
                                entryTime = now, exitTime = None, amount = None\<rparr>]"
    unfolding alloc using k(1,2) id1 by (simp add: inventory_def st1_def)
  moreover have "k < length (inventory st)" using k(1) by (simp add: inventory_def)
  ultimately show ?thesis using ranks by blast
qed

text \<open>
  C6, as amended. For every vehicle and every inventory whose spots have pairwise
  distinct \<open>id\<close>s and that holds at least one \<open>AVAILABLE\<close> spot of the vehicle's size, \<open>allocate\<close> returns the spot of a slot \<open>k\<close> that is a candidate, has the
  least \<open>distanceRank\<close> of all candidates and a strictly smaller one than every candidate
  before it in the inventory; the inventory afterwards is the one before with the status
  of slot \<open>k\<close> set to \<open>OCCUPIED\<close>, every other spot as it was; and the session for it is
  appended to the ledger.
\<close>

theorem allocate_selects_nearest:
  assumes ids: "distinct (map spot_id (inventory st))"
    and avail: "\<exists>s\<in>set (inventory st). status s = AVAILABLE \<and> spot_size s = type v"
  shows "\<exists>k<length (inventory st).
           fst (allocate st v uuid now) = Inr (spots st ! k)
         \<and> status (inventory st ! k) = AVAILABLE \<and> spot_size (inventory st ! k) = type v
         \<and> (\<forall>j<length (inventory st).
               status (inventory st ! j) = AVAILABLE \<and> spot_size (inventory st ! j) = type v
               \<longrightarrow> distanceRank (inventory st ! k) \<le> distanceRank (inventory st ! j)
                   \<and> (j < k \<longrightarrow> distanceRank (inventory st ! k) < distanceRank (inventory st ! j)))
         \<and> inventory (snd (allocate st v uuid now))
             = (inventory st)[k := (inventory st ! k)\<lparr>status := OCCUPIED\<rparr>]
         \<and> sessions (snd (allocate st v uuid now))
             = sessions st @ [\<lparr>session_id = uuid, vehicle = v, spotId = spot_id (inventory st ! k),
                                entryTime = now, exitTime = None, amount = None\<rparr>]"
  using ids avail by (rule allocate_slot)

text \<open>The allocation example of the specification: of \<open>s1\<close> with rank \<open>2\<close> and \<open>s2\<close> with
  rank \<open>1\<close>, the second slot is chosen and becomes \<open>OCCUPIED\<close>; \<open>s1\<close> stays \<open>AVAILABLE\<close>.\<close>

theorem allocate_selects_nearest_witness:
  "distinct (map spot_id (inventory (newRepos specSpots)))
   \<and> (\<exists>s\<in>set (inventory (newRepos specSpots)). status s = AVAILABLE \<and> spot_size s = type demoCar)
   \<and> fst (allocate (newRepos specSpots) demoCar ''x1'' 0) = Inr 1
   \<and> map status (inventory (snd (allocate (newRepos specSpots) demoCar ''x1'' 0))) = [AVAILABLE, OCCUPIED]"
proof -
  have inv: "inventory (newRepos specSpots) = specSpots" by code_simp
  have sp: "spots (newRepos specSpots) = [0, 1]" by code_simp
  have h1: "distinct (map spot_id (inventory (newRepos specSpots)))"
    unfolding inv by (simp add: specSpots_def)
  have h2: "\<exists>s\<in>set (inventory (newRepos specSpots)). status s = AVAILABLE \<and> spot_size s = type demoCar"
    unfolding inv by (simp add: specSpots_def demoCar_def)
  obtain k where k: "k < length specSpots"
      and r: "fst (allocate (newRepos specSpots) demoCar ''x1'' 0) = Inr ([0, 1] ! k)"
      and m: "\<forall>j<length specSpots.
               status (specSpots ! j) = AVAILABLE \<and> spot_size (specSpots ! j) = type demoCar
               \<longrightarrow> distanceRank (specSpots ! k) \<le> distanceRank (specSpots ! j)
                   \<and> (j < k \<longrightarrow> distanceRank (specSpots ! k) < distanceRank (specSpots ! j))"
      and i: "inventory (snd (allocate (newRepos specSpots) demoCar ''x1'' 0))
             = specSpots[k := (specSpots ! k)\<lparr>status := OCCUPIED\<rparr>]"
    using allocate_selects_nearest [OF h1 h2, of "''x1''" 0] unfolding inv sp by blast
  have "k = 0 \<or> k = 1" using k by (auto simp: specSpots_def)
  moreover have "distanceRank (specSpots ! k) \<le> distanceRank (specSpots ! 1)"
  proof -
    have l: "1 < length specSpots" by (simp add: specSpots_def)
    have c: "status (specSpots ! 1) = AVAILABLE \<and> spot_size (specSpots ! 1) = type demoCar"
      by (simp add: specSpots_def demoCar_def)
    show ?thesis using m [rule_format, OF l c] by blast
  qed
  ultimately have "k = 1" by (auto simp: specSpots_def)
  thus ?thesis using h1 h2 r i by (simp add: specSpots_def)
qed

text \<open>
  The claim C6 as it is written, for every inventory, fails where two spots carry the
  same \<open>id\<close>, because \<open>update\<close> stores the chosen spot in the first slot with its \<open>id\<close>.
  In \<open>duplicateIdSpots\<close> the only candidate for a car is the second spot (reference \<open>1\<close>);
  \<open>allocate\<close> chooses it, and afterwards the first slot of the registry holds it too: the
  slot of the bus spot, which was not chosen, shows \<open>OCCUPIED\<close> and the size \<open>CAR\<close>.
\<close>

theorem allocate_duplicate_id_counterexample:
  "map spot_id (inventory (newRepos duplicateIdSpots)) = [''s1'', ''s1'']
   \<and> map spot_size (inventory (newRepos duplicateIdSpots)) = [BUS, CAR]
   \<and> map status (inventory (newRepos duplicateIdSpots)) = [AVAILABLE, AVAILABLE]
   \<and> fst (allocate (newRepos duplicateIdSpots) demoCar ''x1'' 0) = Inr 1
   \<and> spots (snd (allocate (newRepos duplicateIdSpots) demoCar ''x1'' 0)) = [1, 1]
   \<and> map spot_size (inventory (snd (allocate (newRepos duplicateIdSpots) demoCar ''x1'' 0))) = [CAR, CAR]
   \<and> map status (inventory (snd (allocate (newRepos duplicateIdSpots) demoCar ''x1'' 0)))
       = [OCCUPIED, OCCUPIED]"
  by (intro conjI; code_simp)

section \<open>The session ledger\<close>

text \<open>
  C4, as amended. For every id, exit instant and amount, \<open>close\<close> never fails. When the
  first session with that id is open, it sets \<open>exitTime\<close> and \<open>amount\<close> on that session
  and changes no other session; when no session has that id, it returns normally and
  leaves the state as it was. It never touches the spot registry.
\<close>

theorem close_sets_or_skips:
  "fst (close st i exit amt) = Inr ()
   \<and> heap (snd (close st i exit amt)) = heap st \<and> spots (snd (close st i exit amt)) = spots st
   \<and> (\<forall>k<length (sessions st).
         session_id (sessions st ! k) = i \<and> (\<forall>j<k. session_id (sessions st ! j) \<noteq> i)
           \<and> exitTime (sessions st ! k) = None
         \<longrightarrow> sessions (snd (close st i exit amt))
               = (sessions st)[k := (sessions st ! k)\<lparr>exitTime := Some exit, amount := Some amt\<rparr>])
   \<and> (i \<notin> session_id ` set (sessions st) \<longrightarrow> snd (close st i exit amt) = st)"
proof (intro conjI allI impI)
  show "fst (close st i exit amt) = Inr ()" by (simp add: close_def)
  show "heap (snd (close st i exit amt)) = heap st" by (simp add: close_def)
  show "spots (snd (close st i exit amt)) = spots st" by (simp add: close_def)
next
  fix k assume k: "k < length (sessions st)"
    and m: "session_id (sessions st ! k) = i \<and> (\<forall>j<k. session_id (sessions st ! j) \<noteq> i)
           \<and> exitTime (sessions st ! k) = None"
  have "mutateFirst (\<lambda>x. session_id x = i) (\<lambda>s. s\<lparr>exitTime := Some exit, amount := Some amt\<rparr>) (sessions st)
      = (sessions st)[k := (sessions st ! k)\<lparr>exitTime := Some exit, amount := Some amt\<rparr>]"
    using k m by (intro mutateFirst_at) auto
  thus "sessions (snd (close st i exit amt))
      = (sessions st)[k := (sessions st ! k)\<lparr>exitTime := Some exit, amount := Some amt\<rparr>]"
    by (simp add: close_def)
next
  assume "i \<notin> session_id ` set (sessions st)"
  hence "\<forall>x\<in>set (sessions st). \<not> session_id x = i" by auto
  hence "mutateFirst (\<lambda>x. session_id x = i) (\<lambda>s. s\<lparr>exitTime := Some exit, amount := Some amt\<rparr>) (sessions st)
      = sessions st"
    by (rule mutateFirst_none)
  thus "snd (close st i exit amt) = st" by (simp add: close_def)
qed

theorem close_sets_or_skips_witness:
  "0 < length (sessions demoCheckedIn)
   \<and> session_id (sessions demoCheckedIn ! 0) = ''x1'' \<and> exitTime (sessions demoCheckedIn ! 0) = None
   \<and> sessions (snd (close demoCheckedIn ''x1'' 1800000 3))
       = [\<lparr>session_id = ''x1'', vehicle = demoCar, spotId = ''s1'', entryTime = 0,
           exitTime = Some 1800000, amount = Some 3\<rparr>]
   \<and> ''x9'' \<notin> session_id ` set (sessions demoCheckedIn)
   \<and> close demoCheckedIn ''x9'' 1800000 3 = (Inr (), demoCheckedIn)"
proof -
  have s: "sessions demoCheckedIn = [\<lparr>session_id = ''x1'', vehicle = demoCar, spotId = ''s1'',
      entryTime = 0, exitTime = None, amount = None\<rparr>]"
    by code_simp
  have a: "sessions (snd (close demoCheckedIn ''x1'' 1800000 3))
       = [\<lparr>session_id = ''x1'', vehicle = demoCar, spotId = ''s1'', entryTime = 0,
           exitTime = Some 1800000, amount = Some 3\<rparr>]"
    using close_sets_or_skips [of demoCheckedIn "''x1''" 1800000 3] unfolding s by simp
  have b: "close demoCheckedIn ''x9'' 1800000 3 = (Inr (), demoCheckedIn)"
    using close_sets_or_skips [of demoCheckedIn "''x9''" 1800000 3] unfolding s
    by (simp add: prod_eq_iff)
  show ?thesis using a b unfolding s by simp
qed

text \<open>
  The claim C4 as it is written fails where no session has the id: the ledger of
  \<open>demoCheckedIn\<close> has no session \<open>x9\<close>, open or closed, and \<open>close\<close> returns normally,
  with the ledger as it was, instead of the \<open>NotFound\<close> failure.
\<close>

theorem close_unknown_id_counterexample:
  "find (\<lambda>x. session_id x = ''x9'') (sessions demoCheckedIn) = None
   \<and> fst (close demoCheckedIn ''x9'' 1800000 3) = Inr ()
   \<and> fst (close demoCheckedIn ''x9'' 1800000 3) \<noteq> Inl NotFound
   \<and> sessions (snd (close demoCheckedIn ''x9'' 1800000 3)) = sessions demoCheckedIn"
  by (intro conjI; code_simp)

text \<open>
  C5, as amended. For every session, also one whose id is already present in the ledger,
  \<open>create\<close> never fails: it appends the session at the end of the ledger, so one more
  session carries that id, and changes nothing else.
\<close>

theorem create_always_appends:
  "fst (create st s) = Inr ()
   \<and> sessions (snd (create st s)) = sessions st @ [s]
   \<and> length (filter (\<lambda>x. session_id x = session_id s) (sessions (snd (create st s))))
       = Suc (length (filter (\<lambda>x. session_id x = session_id s) (sessions st)))
   \<and> heap (snd (create st s)) = heap st \<and> spots (snd (create st s)) = spots st"
  by (simp add: create_def)

text \<open>
  The claim C5 as it is written fails: the ledger of \<open>demoCheckedIn\<close> holds a session
  \<open>x1\<close>, and \<open>create\<close> of another session with the id \<open>x1\<close> returns normally and leaves
  two sessions with that id, instead of the \<open>DuplicateId\<close> failure.
\<close>

theorem create_duplicate_id_counterexample:
  "map session_id (sessions demoCheckedIn) = [''x1'']
   \<and> session_id duplicateSession = ''x1''
   \<and> fst (create demoCheckedIn duplicateSession) = Inr ()
   \<and> map session_id (sessions (snd (create demoCheckedIn duplicateSession))) = [''x1'', ''x1'']"
  by (intro conjI; code_simp)

section \<open>Check-in and check-out\<close>

lemma allocate_success:
  assumes "allocate st v uuid now = (Inr spot, st1)"
  shows "findById st1 (spot_id (heap st1 spot)) = Some spot
       \<and> sessions st1 = sessions st @ [\<lparr>session_id = uuid, vehicle = v, spotId = spot_id (heap st1 spot),
                                           entryTime = now, exitTime = None, amount = None\<rparr>]"
proof -
  define cands where "cands = listAvailableBySize st (type v)"
  define chosen where "chosen = hd (sort_key (\<lambda>s. distanceRank (heap st s)) cands)"
  define st0 where "st0 = st\<lparr>heap := (heap st)(chosen := (heap st chosen)\<lparr>status := OCCUPIED\<rparr>)\<rparr>"
  have ne: "cands \<noteq> []"
    using assms unfolding allocate_def cands_def[symmetric] by (auto simp: Let_def)
  have "chosen \<in> set cands" unfolding chosen_def using ne by (rule hd_sort_key_min(1))
  hence "chosen \<in> set (spots st0)" unfolding cands_def listAvailableBySize_def st0_def by simp
  then obtain st' where st': "update st0 chosen = (Inr (), st')" "heap st' = heap st0"
      "sessions st' = sessions st0" "findById st' (spot_id (heap st0 chosen)) = Some chosen"
    using update_registers [of chosen st0] by blast
  have "allocate st v uuid now =
      (Inr chosen, st'\<lparr>sessions := sessions st' @ [\<lparr>session_id = uuid, vehicle = v,
          spotId = spot_id (heap st' chosen), entryTime = now, exitTime = None, amount = None\<rparr>]\<rparr>)"
    unfolding allocate_def cands_def[symmetric] Let_def chosen_def[symmetric] st0_def[symmetric]
    using ne st'(1) by (simp add: await_def create_def)
  hence eq: "spot = chosen" "st1 = st'\<lparr>sessions := sessions st' @ [\<lparr>session_id = uuid, vehicle = v,
          spotId = spot_id (heap st' chosen), entryTime = now, exitTime = None, amount = None\<rparr>]\<rparr>"
    using assms by simp_all
  have "findById st1 (spot_id (heap st1 spot)) = Some spot"
    using st'(4) st'(2) unfolding eq findById_def by simp
  moreover have "sessions st1 = sessions st @ [\<lparr>session_id = uuid, vehicle = v, spotId = spot_id (heap st1 spot),
                                           entryTime = now, exitTime = None, amount = None\<rparr>]"
    unfolding eq using st'(3) by (simp add: st0_def)
  ultimately show ?thesis by simp
qed

lemma checkIn_allocate:
  assumes "checkIn st v uuid now = (Inr res, st1)"
  shows "\<exists>spot. allocate st v uuid now = (Inr spot, st1)
           \<and> res = (spot_id (heap st1 spot), code (heap st1 spot))"
proof (cases "allocate st v uuid now")
  case (Pair r st')
  show ?thesis
  proof (cases r)
    case (Inl e)
    with Pair assms show ?thesis by (simp add: checkIn_def await_def)
  next
    case (Inr spot)
    with Pair assms show ?thesis by (auto simp add: checkIn_def await_def)
  qed
qed

lemma base_le_calculate:
  assumes "0 \<le> perHour c"
  shows "base c \<le> calculate c now s"
proof -
  have "0 \<le> of_int (max 0 \<lceil>max 0 (of_int \<lceil>real_of_int
        ((case exitTime s of Some t \<Rightarrow> t | None \<Rightarrow> now) - entryTime s) / 60000\<rceil> - graceMinutes c) / 60\<rceil>)
       * perHour c"
    using assms by (intro mult_nonneg_nonneg) simp_all
  thus ?thesis unfolding calculate_unfold by simp
qed

lemma for_type_perHour: "0 \<le> perHour (for_type t)"
  by (cases t) (simp_all add: newFlatPerHourCalculator_def)

text \<open>
  C9, as amended. For every vehicle and every state in which \<open>checkIn\<close> succeeds, with a
  freshly generated identifier (one that no session of the ledger carries yet), a
  \<open>checkOut\<close> of that identifier in the resulting state, at any clock reading \<open>t_out\<close>,
  succeeds with an amount of at least the \<open>base\<close> of the vehicle type's rate; afterwards
  the registry finds the allocated spot under the returned \<open>spotId\<close> and its status is
  \<open>AVAILABLE\<close>; and the session carries the clock reading of the check-in as
  \<open>entryTime\<close>, the clock reading of the check-out as \<open>exitTime\<close>, and the amount. The
  two readings are recorded as they are and never compared: the recorded \<open>exitTime\<close> is
  not earlier than the \<open>entryTime\<close> if and only if the clock at the check-out is not
  earlier than at the check-in.
\<close>

theorem checkIn_checkOut_roundtrip:
  assumes cin: "checkIn st v uuid t_in = (Inr res, st1)"
    and fresh: "uuid \<notin> session_id ` set (sessions st)"
  shows "\<exists>amt spot s.
           fst (checkOut st1 uuid t_out) = Inr amt \<and> base (for_type (type v)) \<le> amt
         \<and> fst (allocate st v uuid t_in) = Inr spot
         \<and> findById (snd (checkOut st1 uuid t_out)) (fst res) = Some spot
         \<and> status (heap (snd (checkOut st1 uuid t_out)) spot) = AVAILABLE
         \<and> find (\<lambda>s. session_id s = uuid) (sessions (snd (checkOut st1 uuid t_out))) = Some s
         \<and> entryTime s = t_in \<and> exitTime s = Some t_out \<and> amount s = Some amt
         \<and> ((\<exists>x. exitTime s = Some x \<and> entryTime s \<le> x) = (t_in \<le> t_out))"
proof -
  obtain spot where al: "allocate st v uuid t_in = (Inr spot, st1)"
      and res: "res = (spot_id (heap st1 spot), code (heap st1 spot))"
    using checkIn_allocate [OF cin] by blast
  define new where "new = \<lparr>session_id = uuid, vehicle = v, spotId = spot_id (heap st1 spot),
      entryTime = t_in, exitTime = None, amount = None\<rparr>"
  have reg: "findById st1 (spot_id (heap st1 spot)) = Some spot"
    and ses: "sessions st1 = sessions st @ [new]"
    using allocate_success [OF al] unfolding new_def by simp_all
  define P where "P = (\<lambda>s::ParkingSession. session_id s = uuid)"
  have old: "\<forall>x\<in>set (sessions st). \<not> P x" using fresh unfolding P_def by auto
  have Pnew: "P new" "P (new\<lparr>exitTime := Some t_out\<rparr>)" unfolding P_def new_def by simp_all
  define amt where "amt = calculate (for_type (type v)) t_out (new\<lparr>exitTime := Some t_out\<rparr>)"
  define closed where "closed = new\<lparr>exitTime := Some t_out, amount := Some amt\<rparr>"
  have f1: "find P (sessions st1) = Some new"
    unfolding ses using old Pnew(1) by (rule find_append_fresh)
  have m1: "mutateFirst P (\<lambda>s. s\<lparr>exitTime := Some t_out\<rparr>) (sessions st1)
      = sessions st @ [new\<lparr>exitTime := Some t_out\<rparr>]"
    unfolding ses using old Pnew(1) by (rule mutateFirst_append_fresh)
  have m2: "mutateFirst P (\<lambda>s. s\<lparr>exitTime := Some t_out, amount := Some amt\<rparr>)
        (sessions st @ [new\<lparr>exitTime := Some t_out\<rparr>]) = sessions st @ [closed]"
    unfolding closed_def using mutateFirst_append_fresh [OF old Pnew(2)] by simp
  define st2 where "st2 = st1\<lparr>sessions := sessions st @ [closed]\<rparr>"
  have cl: "close (st1\<lparr>sessions := sessions st @ [new\<lparr>exitTime := Some t_out\<rparr>]\<rparr>) uuid t_out amt
      = (Inr (), st2)"
    unfolding close_def st2_def P_def[symmetric] using m2 by simp
  have "findById st2 (spot_id (heap st1 spot)) = Some spot"
    unfolding st2_def findById_sessions by (rule reg)
  hence rel: "release st2 (spot_id (heap st1 spot))
      = (Inr (), st2\<lparr>heap := (heap st2)(spot := (heap st2 spot)\<lparr>status := AVAILABLE\<rparr>)\<rparr>)"
    by (rule release_registered)
  define st3 where "st3 = st2\<lparr>heap := (heap st2)(spot := (heap st2 spot)\<lparr>status := AVAILABLE\<rparr>)\<rparr>"
  have out: "checkOut st1 uuid t_out = (Inr amt, st3)"
    unfolding checkOut_def P_def[symmetric] f1 m1
    using cl rel unfolding st3_def[symmetric]
    by (simp add: Let_def await_def new_def amt_def)
  have "findById st3 (spot_id (heap st1 spot)) = findById st2 (spot_id (heap st1 spot))"
    unfolding st3_def by (rule findById_status)
  hence a: "findById st3 (fst res) = Some spot"
    unfolding res st2_def findById_sessions using reg by simp
  have b: "status (heap st3 spot) = AVAILABLE" unfolding st3_def by simp
  have "find P (sessions st3) = Some closed"
    unfolding st3_def st2_def using find_append_fresh [OF old, of closed] Pnew unfolding closed_def P_def
    by simp
  hence c: "find (\<lambda>s. session_id s = uuid) (sessions st3) = Some closed" unfolding P_def .
  have d: "entryTime closed = t_in" "exitTime closed = Some t_out" "amount closed = Some amt"
    unfolding closed_def new_def by simp_all
  have e: "base (for_type (type v)) \<le> amt"
    unfolding amt_def using for_type_perHour by (rule base_le_calculate)
  have "fst (allocate st v uuid t_in) = Inr spot" using al by simp
  moreover have "(\<exists>x. exitTime closed = Some x \<and> entryTime closed \<le> x) = (t_in \<le> t_out)"
    using d by simp
  ultimately show ?thesis using out a b c d e by auto
qed

text \<open>The run of the demonstration: check-in at \<open>0\<close>, check-out thirty minutes later. The
  amount is \<open>3\<close>, the spot \<open>s1\<close> (reference \<open>0\<close>) is \<open>AVAILABLE\<close> again, and the exit
  instant recorded is not earlier than the entry instant.\<close>

theorem checkIn_checkOut_roundtrip_witness:
  "checkIn (newRepos demoSpots) demoCar ''x1'' 0 = (Inr (''s1'', ''F1-A1''), demoCheckedIn)
   \<and> ''x1'' \<notin> session_id ` set (sessions (newRepos demoSpots))
   \<and> fst (checkOut demoCheckedIn ''x1'' 1800000) = Inr 3
   \<and> base (for_type (type demoCar)) \<le> 3
   \<and> findById demoCheckedOut ''s1'' = Some 0
   \<and> status (heap demoCheckedOut 0) = AVAILABLE
   \<and> (\<exists>s. find (\<lambda>s. session_id s = ''x1'') (sessions demoCheckedOut) = Some s
          \<and> entryTime s = 0 \<and> exitTime s = Some 1800000 \<and> amount s = Some 3
          \<and> (\<exists>x. exitTime s = Some x \<and> entryTime s \<le> x))"
proof -
  have "fst (checkIn (newRepos demoSpots) demoCar ''x1'' 0) = Inr (''s1'', ''F1-A1'')" by code_simp
  hence h1: "checkIn (newRepos demoSpots) demoCar ''x1'' 0 = (Inr (''s1'', ''F1-A1''), demoCheckedIn)"
    unfolding demoCheckedIn_def by (simp add: prod_eq_iff)
  have h2: "''x1'' \<notin> session_id ` set (sessions (newRepos demoSpots))"
    by (simp add: newRepos_def)
  have e1: "fst (checkOut demoCheckedIn ''x1'' 1800000) = Inr 3" by code_simp
  have e2: "fst (allocate (newRepos demoSpots) demoCar ''x1'' 0) = Inr 0" by code_simp
  obtain amt spot s where r:
      "fst (checkOut demoCheckedIn ''x1'' 1800000) = Inr amt" "base (for_type (type demoCar)) \<le> amt"
      "fst (allocate (newRepos demoSpots) demoCar ''x1'' 0) = Inr spot"
      "findById (snd (checkOut demoCheckedIn ''x1'' 1800000)) (fst (''s1'', ''F1-A1'')) = Some spot"
      "status (heap (snd (checkOut demoCheckedIn ''x1'' 1800000)) spot) = AVAILABLE"
      and s: "find (\<lambda>s. session_id s = ''x1'') (sessions (snd (checkOut demoCheckedIn ''x1'' 1800000))) = Some s"
      "entryTime s = 0" "exitTime s = Some 1800000" "amount s = Some amt"
      "(\<exists>x. exitTime s = Some x \<and> entryTime s \<le> x) = ((0::int) \<le> 1800000)"
    using checkIn_checkOut_roundtrip [OF h1 h2, of 1800000] by blast
  have amt: "amt = 3" using r(1) e1 by simp
  have "base (for_type (type demoCar)) \<le> 3" "findById demoCheckedOut ''s1'' = Some 0"
      "status (heap demoCheckedOut 0) = AVAILABLE"
    using r unfolding demoCheckedOut_def using e1 e2 by simp_all
  moreover have "\<exists>s. find (\<lambda>s. session_id s = ''x1'') (sessions demoCheckedOut) = Some s
          \<and> entryTime s = 0 \<and> exitTime s = Some 1800000 \<and> amount s = Some 3
          \<and> (\<exists>x. exitTime s = Some x \<and> entryTime s \<le> x)"
    using s amt unfolding demoCheckedOut_def by auto
  ultimately show ?thesis using h1 h2 e1 by simp
qed

text \<open>
  The claim C9 as it is written fails in its last part: \<open>checkOut\<close> stores the clock
  reading it takes and compares it with nothing. With the clock set back between the two
  calls (check-in at \<open>1000\<close>, check-out at \<open>500\<close>) both calls succeed, the amount is the
  \<open>base\<close> of a car, \<open>1\<close>, and the session records the exit instant \<open>500\<close>, earlier than
  its entry instant \<open>1000\<close>.
\<close>

theorem checkOut_clock_back_counterexample:
  "fst (checkIn (newRepos demoSpots) demoCar ''x1'' 1000) = Inr (''s1'', ''F1-A1'')
   \<and> fst (checkOut clockBackCheckedIn ''x1'' 500) = Inr 1
   \<and> map entryTime (sessions clockBackCheckedOut) = [1000]
   \<and> map exitTime (sessions clockBackCheckedOut) = [Some 500]
   \<and> map status (inventory clockBackCheckedOut) = [AVAILABLE, AVAILABLE]"
  by (intro conjI; code_simp)

section \<open>The occupancy invariant on runs without a second check-out\<close>

lemma distinct_map_nth:
  assumes "distinct (map f xs)" "j < length xs" "k < length xs" "j \<noteq> k"
  shows "f (xs ! j) \<noteq> f (xs ! k)"
proof -
  have "map f xs ! j \<noteq> map f xs ! k"
    using nth_eq_iff_index_eq [OF assms(1), of j k] assms(2,3,4) by simp
  thus ?thesis using assms(2,3) by simp
qed

lemma spotsConsistent_nth:
  "spotsConsistent st \<longleftrightarrow>
     distinct (map spot_id (inventory st))
     \<and> (\<forall>j<length (inventory st).
          status (inventory st ! j) = OCCUPIED \<and> length (openSessionsOn st (spot_id (inventory st ! j))) = 1
        \<or> status (inventory st ! j) = AVAILABLE \<and> length (openSessionsOn st (spot_id (inventory st ! j))) = 0)"
  unfolding spotsConsistent_def by (simp add: list_all_length)

lemma spotsConsistent_invariant:
  assumes "spotsConsistent st"
  shows "occupiedIffOneOpenSession st"
proof -
  have "\<forall>s\<in>set (inventory st).
          status s = OCCUPIED \<and> length (openSessionsOn st (spot_id s)) = 1
        \<or> status s = AVAILABLE \<and> length (openSessionsOn st (spot_id s)) = 0"
    using assms unfolding spotsConsistent_def by (simp add: list_all_iff)
  hence "\<forall>s\<in>set (inventory st). (status s = OCCUPIED) = (length (openSessionsOn st (spot_id s)) = 1)"
    by auto
  thus ?thesis unfolding occupiedIffOneOpenSession_def by (simp add: list_all_iff)
qed

lemma inventory_newRepos: "inventory (newRepos initial) = initial"
  unfolding inventory_def newRepos_def by (simp add: map_nth)

lemma spotsConsistent_newRepos:
  assumes "distinct (map spot_id initial)" "\<forall>s\<in>set initial. status s = AVAILABLE"
  shows "spotsConsistent (newRepos initial)"
proof -
  have "openSessionsOn (newRepos initial) i = []" for i
    unfolding openSessionsOn_def newRepos_def by simp
  thus ?thesis unfolding spotsConsistent_def inventory_newRepos using assms
    by (simp add: list_all_iff)
qed

lemma openSessionsOn_append:
  "sessions st' = sessions st @ [x] \<Longrightarrow>
   length (openSessionsOn st' i)
     = length (openSessionsOn st i) + (if exitTime x = None \<and> spotId x = i then 1 else 0)"
  unfolding openSessionsOn_def by simp

lemma checkIn_state: "snd (checkIn st v uuid now) = snd (allocate st v uuid now)"
  unfolding checkIn_def await_def by (simp split: prod.splits sum.splits)

lemma checkIn_consistent:
  assumes c: "spotsConsistent st"
  shows "spotsConsistent (snd (checkIn st v uuid now))"
proof (cases "\<exists>s\<in>set (inventory st). status s = AVAILABLE \<and> spot_size s = type v")
  case False
  hence "listAvailableBySize st (type v) = []"
    unfolding listAvailableBySize_def inventory_def by (auto simp: filter_empty_conv)
  hence "allocate st v uuid now = (Inl NoSpace, st)" unfolding allocate_def by simp
  thus ?thesis using c unfolding checkIn_state by simp
next
  case True
  define st' where "st' = snd (allocate st v uuid now)"
  define new where "new = (\<lambda>k. \<lparr>session_id = uuid, vehicle = v, spotId = spot_id (inventory st ! k),
                                entryTime = now, exitTime = None, amount = None\<rparr>)"
  have ids: "distinct (map spot_id (inventory st))" using c unfolding spotsConsistent_def by simp
  obtain k where k: "k < length (inventory st)" "status (inventory st ! k) = AVAILABLE"
      and inv: "inventory st' = (inventory st)[k := (inventory st ! k)\<lparr>status := OCCUPIED\<rparr>]"
      and ses: "sessions st' = sessions st @ [new k]"
    using allocate_slot [OF ids True, of uuid now] unfolding st'_def new_def by blast
  have cnt: "length (openSessionsOn st' i)
      = length (openSessionsOn st i) + (if spot_id (inventory st ! k) = i then 1 else 0)" for i
    using openSessionsOn_append [OF ses, of i] unfolding new_def by simp
  have idk: "spot_id (inventory st' ! j) = spot_id (inventory st ! j)" if "j < length (inventory st)" for j
    unfolding inv using that by (cases "j = k") simp_all
  have ids': "map spot_id (inventory st') = map spot_id (inventory st)"
    using idk unfolding list_eq_iff_nth_eq by (simp add: inv)
  have old: "\<forall>j<length (inventory st).
          status (inventory st ! j) = OCCUPIED \<and> length (openSessionsOn st (spot_id (inventory st ! j))) = 1
        \<or> status (inventory st ! j) = AVAILABLE \<and> length (openSessionsOn st (spot_id (inventory st ! j))) = 0"
    using c unfolding spotsConsistent_nth by simp
  have "status (inventory st' ! j) = OCCUPIED \<and> length (openSessionsOn st' (spot_id (inventory st' ! j))) = 1
        \<or> status (inventory st' ! j) = AVAILABLE \<and> length (openSessionsOn st' (spot_id (inventory st' ! j))) = 0"
    if j: "j < length (inventory st)" for j
  proof (cases "j = k")
    case True
    have "length (openSessionsOn st (spot_id (inventory st ! k))) = 0"
      using old k by auto
    thus ?thesis unfolding idk [OF j] cnt using True k(1) by (simp add: inv)
  next
    case False
    have "spot_id (inventory st ! k) \<noteq> spot_id (inventory st ! j)"
      using distinct_map_nth [OF ids k(1) j] False by blast
    moreover have "inventory st' ! j = inventory st ! j" unfolding inv using False by simp
    ultimately show ?thesis using old j unfolding cnt by simp
  qed
  hence "spotsConsistent st'" unfolding spotsConsistent_nth ids' using ids by (simp add: inv)
  thus ?thesis unfolding checkIn_state st'_def .
qed

lemma mutateFirst_twice:
  "\<forall>x. P x \<longrightarrow> P (f x) \<Longrightarrow> mutateFirst P g (mutateFirst P f xs) = mutateFirst P (\<lambda>x. g (f x)) xs"
  by (induction xs) auto

lemma length_filter_update:
  "m < length xs \<Longrightarrow>
   length (filter Q (xs[m := y])) + (if Q (xs ! m) then 1 else 0)
     = length (filter Q xs) + (if Q y then 1 else 0)"
proof (induction xs arbitrary: m)
  case Nil
  then show ?case by simp
next
  case (Cons x xs)
  show ?case
  proof (cases m)
    case 0
    then show ?thesis by simp
  next
    case (Suc n)
    hence "n < length xs" using Cons.prems by simp
    hence "length (filter Q (xs[n := y])) + (if Q (xs ! n) then 1 else 0)
        = length (filter Q xs) + (if Q y then 1 else 0)"
      by (rule Cons.IH)
    thus ?thesis using Suc by simp
  qed
qed

lemma update_ok: "fst (update st spot) = Inr ()"
  unfolding update_def by (simp split: option.splits)

lemma release_ok: "fst (release st i) = Inr ()"
  unfolding release_def by (simp add: update_ok split: option.splits)

lemma await_Inr: "await (Inr a, st) k = k a st"
  by (simp add: await_def)

lemma await_release: "await (release st i) k = k () (snd (release st i))"
  unfolding await_def using release_ok [of st i] by (auto split: prod.splits sum.splits)

text \<open>What \<open>checkOut\<close> does with a session it finds, open or closed.\<close>

lemma checkOut_found:
  assumes f: "find (\<lambda>s. session_id s = sessionId) (sessions st) = Some s"
    and a: "amt = calculate (for_type (type (vehicle s))) now (s\<lparr>exitTime := Some now\<rparr>)"
  shows "checkOut st sessionId now =
     (Inr amt,
      snd (release (st\<lparr>sessions := mutateFirst (\<lambda>s. session_id s = sessionId)
              (\<lambda>s. s\<lparr>exitTime := Some now, amount := Some amt\<rparr>) (sessions st)\<rparr>) (spotId s)))"
proof -
  have "mutateFirst (\<lambda>s. session_id s = sessionId) (\<lambda>s. s\<lparr>exitTime := Some now, amount := Some amt\<rparr>)
          (mutateFirst (\<lambda>s. session_id s = sessionId) (\<lambda>s. s\<lparr>exitTime := Some now\<rparr>) (sessions st))
      = mutateFirst (\<lambda>s. session_id s = sessionId) (\<lambda>s. s\<lparr>exitTime := Some now, amount := Some amt\<rparr>)
          (sessions st)"
    using mutateFirst_twice [of "\<lambda>s. session_id s = sessionId" "\<lambda>s. s\<lparr>exitTime := Some now\<rparr>"
        "\<lambda>s. s\<lparr>exitTime := Some now, amount := Some amt\<rparr>" "sessions st"]
    by simp
  thus ?thesis
    unfolding checkOut_def f a close_def
    by (simp add: Let_def await_Inr await_release)
qed

lemma checkOut_consistent:
  assumes c: "spotsConsistent st"
    and o: "notOfClosedSession st (CheckOut sessionId now)"
  shows "spotsConsistent (snd (checkOut st sessionId now))"
proof (cases "find (\<lambda>s. session_id s = sessionId) (sessions st)")
  case None
  hence "checkOut st sessionId now = (Inl NotFound, st)" unfolding checkOut_def by simp
  thus ?thesis using c by simp
next
  case (Some s)
  define P where "P = (\<lambda>s::ParkingSession. session_id s = sessionId)"
  define amt where "amt = calculate (for_type (type (vehicle s))) now (s\<lparr>exitTime := Some now\<rparr>)"
  define closed where "closed = s\<lparr>exitTime := Some now, amount := Some amt\<rparr>"
  have op: "exitTime s = None" using o Some by simp
  obtain m where m: "m < length (sessions st)" "sessions st ! m = s" "P s"
      "\<forall>j<m. \<not> P (sessions st ! j)"
    using Some unfolding find_Some_iff P_def by blast
  have mf: "mutateFirst P (\<lambda>s. s\<lparr>exitTime := Some now, amount := Some amt\<rparr>) (sessions st)
      = (sessions st)[m := closed]"
    unfolding closed_def using mutateFirst_at [of m "sessions st" P] m by simp
  define st2 where "st2 = st\<lparr>sessions := (sessions st)[m := closed]\<rparr>"
  define st3 where "st3 = snd (release st2 (spotId s))"
  have out: "snd (checkOut st sessionId now) = st3"
    unfolding checkOut_found [OF Some amt_def] st3_def st2_def P_def[symmetric] mf by simp
  have cnt: "length (openSessionsOn st2 i) + (if spotId s = i then 1 else 0) = length (openSessionsOn st i)"
    for i
    using length_filter_update [OF m(1), of "\<lambda>x. exitTime x = None \<and> spotId x = i" closed]
    unfolding openSessionsOn_def st2_def closed_def using m(2) op by simp
  have inv2: "inventory st2 = inventory st" unfolding inventory_def st2_def by simp
  have ids: "distinct (map spot_id (inventory st))" using c unfolding spotsConsistent_def by simp
  have old: "\<forall>j<length (inventory st).
          status (inventory st ! j) = OCCUPIED \<and> length (openSessionsOn st (spot_id (inventory st ! j))) = 1
        \<or> status (inventory st ! j) = AVAILABLE \<and> length (openSessionsOn st (spot_id (inventory st ! j))) = 0"
    using c unfolding spotsConsistent_nth by simp
  show ?thesis
  proof (cases "findById st2 (spotId s)")
    case None
    hence st3: "st3 = st2" unfolding st3_def release_def by simp
    have "\<forall>r\<in>set (spots st). spot_id (heap st r) \<noteq> spotId s"
      using None unfolding findById_def find_None_iff st2_def by simp
    hence no: "\<forall>j<length (inventory st). spot_id (inventory st ! j) \<noteq> spotId s"
      unfolding inventory_def by simp
    have "\<forall>j<length (inventory st). length (openSessionsOn st2 (spot_id (inventory st ! j)))
        = length (openSessionsOn st (spot_id (inventory st ! j)))"
    proof (intro allI impI)
      fix j assume "j < length (inventory st)"
      hence "spotId s \<noteq> spot_id (inventory st ! j)" using no by auto
      thus "length (openSessionsOn st2 (spot_id (inventory st ! j)))
        = length (openSessionsOn st (spot_id (inventory st ! j)))"
        using cnt [of "spot_id (inventory st ! j)"] by simp
    qed
    hence "spotsConsistent st2" unfolding spotsConsistent_nth inv2 using ids old by simp
    thus ?thesis unfolding out st3 .
  next
    case (Some r)
    have st3: "st3 = st2\<lparr>heap := (heap st2)(r := (heap st2 r)\<lparr>status := AVAILABLE\<rparr>)\<rparr>"
      unfolding st3_def release_registered [OF Some] by simp
    obtain k where k: "k < length (spots st)" "spots st ! k = r" "spot_id (heap st r) = spotId s"
      using Some unfolding findById_def find_Some_iff st2_def by auto
    have kl: "k < length (inventory st)" using k(1) by (simp add: inventory_def)
    have idk: "spot_id (inventory st ! k) = spotId s" using k by (simp add: inventory_def)
    have inv3: "inventory st3 = (inventory st)[k := (inventory st ! k)\<lparr>status := AVAILABLE\<rparr>]"
      unfolding inventory_def st3 st2_def
      using map_fun_upd_distinct [OF distinct_ids_refs [OF ids] k(1)] k by simp
    have ses3: "openSessionsOn st3 i = openSessionsOn st2 i" for i
      unfolding openSessionsOn_def st3 by simp
    have id3: "spot_id (inventory st3 ! j) = spot_id (inventory st ! j)" if "j < length (inventory st)" for j
      unfolding inv3 using that by (cases "j = k") simp_all
    have ids3: "map spot_id (inventory st3) = map spot_id (inventory st)"
      using id3 unfolding list_eq_iff_nth_eq by (simp add: inv3)
    have "status (inventory st3 ! j) = OCCUPIED \<and> length (openSessionsOn st3 (spot_id (inventory st3 ! j))) = 1
        \<or> status (inventory st3 ! j) = AVAILABLE \<and> length (openSessionsOn st3 (spot_id (inventory st3 ! j))) = 0"
      if j: "j < length (inventory st)" for j
    proof (cases "j = k")
      case True
      have "length (openSessionsOn st2 (spotId s)) + 1 = length (openSessionsOn st (spotId s))"
        using cnt [of "spotId s"] by simp
      moreover have "status (inventory st ! k) = OCCUPIED \<and> length (openSessionsOn st (spotId s)) = 1
          \<or> status (inventory st ! k) = AVAILABLE \<and> length (openSessionsOn st (spotId s)) = 0"
        using old kl idk by auto
      ultimately have "length (openSessionsOn st2 (spotId s)) = 0" by auto
      thus ?thesis unfolding id3 [OF j] ses3 using True kl idk by (simp add: inv3)
    next
      case False
      have "spot_id (inventory st ! k) \<noteq> spot_id (inventory st ! j)"
        using distinct_map_nth [OF ids kl j] False by blast
      hence "length (openSessionsOn st2 (spot_id (inventory st ! j)))
          = length (openSessionsOn st (spot_id (inventory st ! j)))"
        using cnt [of "spot_id (inventory st ! j)"] idk by simp
      moreover have "inventory st3 ! j = inventory st ! j" unfolding inv3 using False by simp
      ultimately show ?thesis using old j unfolding ses3 by simp
    qed
    hence "spotsConsistent st3" unfolding spotsConsistent_nth ids3 using ids by (simp add: inv3)
    thus ?thesis unfolding out .
  qed
qed

lemma step_consistent:
  "spotsConsistent st \<Longrightarrow> notOfClosedSession st e \<Longrightarrow> spotsConsistent (step st e)"
  by (cases e) (simp_all add: checkIn_consistent checkOut_consistent)

lemma run_consistent:
  "spotsConsistent st \<Longrightarrow> noSecondCheckOut st evs \<Longrightarrow> spotsConsistent (run st evs)"
  unfolding run_def
proof (induction evs arbitrary: st)
  case Nil
  then show ?case by simp
next
  case (Cons e es)
  have "spotsConsistent (step st e)" using Cons.prems by (intro step_consistent) simp_all
  moreover have "noSecondCheckOut (step st e) es" using Cons.prems by simp
  ultimately show ?case using Cons.IH by simp
qed

text \<open>
  From an inventory of \<open>AVAILABLE\<close> spots with pairwise distinct \<open>id\<close>s, every run of
  check-ins and check-outs in which no check-out names a session that is already closed
  ends in a state where a spot is \<open>OCCUPIED\<close> if and only if exactly one open session
  refers to it. The invariant can only be lost by the check-out of a closed session.
\<close>

lemma invariant_without_second_checkOut:
  assumes "distinct (map spot_id initial)" "\<forall>s\<in>set initial. status s = AVAILABLE"
    and "noSecondCheckOut (newRepos initial) evs"
  shows "occupiedIffOneOpenSession (run (newRepos initial) evs)"
  using assms by (intro spotsConsistent_invariant run_consistent spotsConsistent_newRepos)

section \<open>Check-out of a session that is already closed\<close>

text \<open>
  C1 asks that \<open>checkOut\<close> of a session that is already closed fails, without a new
  amount, a second closing or a release of the spot. \<open>checkOut\<close> looks the session up by
  its id alone and does not look at \<open>exitTime\<close>. After the run of the demonstration the
  session \<open>x1\<close> is closed, with exit instant \<open>1800000\<close> and amount \<open>3\<close>; a second
  \<open>checkOut\<close> of \<open>x1\<close> at \<open>12000000\<close> (\<open>200\<close> minutes after the entry) returns the amount
  \<open>9\<close> and overwrites the exit instant and the amount of the closed session. In the other
  continuation the spot \<open>s1\<close> has been given to the session \<open>x2\<close> in between, and the
  second \<open>checkOut\<close> of \<open>x1\<close> sets it back to \<open>AVAILABLE\<close>.
\<close>

theorem checkOut_closed_session_charges_again:
  "map exitTime (sessions demoCheckedOut) = [Some 1800000]
   \<and> map amount (sessions demoCheckedOut) = [Some 3]
   \<and> fst (checkOut demoCheckedOut ''x1'' 12000000) = Inr 9
   \<and> map exitTime (sessions demoCheckedOutTwice) = [Some 12000000]
   \<and> map amount (sessions demoCheckedOutTwice) = [Some 9]
   \<and> map status (inventory demoReused) = [OCCUPIED, AVAILABLE]
   \<and> fst (checkOut demoReused ''x1'' 7200000) = Inr 5
   \<and> map status (inventory demoReusedCheckedOutAgain) = [AVAILABLE, AVAILABLE]"
  by (intro conjI; code_simp)

text \<open>
  C2 asks that in every state reached from an inventory of \<open>AVAILABLE\<close> spots by
  check-ins and check-outs, a spot is \<open>OCCUPIED\<close> if and only if exactly one open session
  refers to it. The run below starts from the inventory of the demonstration, where all
  spots are \<open>AVAILABLE\<close>: check-in of \<open>demoCar\<close> (session \<open>x1\<close>, spot \<open>s1\<close>), check-out of
  \<open>x1\<close>, check-in of \<open>otherCar\<close> (session \<open>x2\<close>, spot \<open>s1\<close> again), check-out of \<open>x1\<close> a
  second time (\<open>demoRun\<close>). All four operations succeed; the invariant holds up to the
  third, and after the fourth the spot \<open>s1\<close> is \<open>AVAILABLE\<close> while the open session \<open>x2\<close>
  refers to it.
\<close>

theorem second_checkOut_breaks_invariant:
  "run (newRepos demoSpots) demoRun = demoReusedCheckedOutAgain
   \<and> list_all (\<lambda>s. status s = AVAILABLE) (inventory (newRepos demoSpots))
   \<and> occupiedIffOneOpenSession (newRepos demoSpots)
   \<and> fst (checkIn (newRepos demoSpots) demoCar ''x1'' 0) = Inr (''s1'', ''F1-A1'')
   \<and> occupiedIffOneOpenSession demoCheckedIn
   \<and> fst (checkOut demoCheckedIn ''x1'' 1800000) = Inr 3
   \<and> occupiedIffOneOpenSession demoCheckedOut
   \<and> fst (checkIn demoCheckedOut otherCar ''x2'' 3600000) = Inr (''s1'', ''F1-A1'')
   \<and> occupiedIffOneOpenSession demoReused
   \<and> fst (checkOut demoReused ''x1'' 7200000) = Inr 5
   \<and> map status (inventory demoReusedCheckedOutAgain) = [AVAILABLE, AVAILABLE]
   \<and> map session_id (openSessionsOn demoReusedCheckedOutAgain ''s1'') = [''x2'']
   \<and> \<not> occupiedIffOneOpenSession demoReusedCheckedOutAgain"
proof -
  have "run (newRepos demoSpots) demoRun = demoReusedCheckedOutAgain"
    by (simp add: run_def demoRun_def demoReusedCheckedOutAgain_def demoReused_def
        demoCheckedOut_def demoCheckedIn_def)
  moreover have "list_all (\<lambda>s. status s = AVAILABLE) (inventory (newRepos demoSpots))
   \<and> occupiedIffOneOpenSession (newRepos demoSpots)
   \<and> fst (checkIn (newRepos demoSpots) demoCar ''x1'' 0) = Inr (''s1'', ''F1-A1'')
   \<and> occupiedIffOneOpenSession demoCheckedIn
   \<and> fst (checkOut demoCheckedIn ''x1'' 1800000) = Inr 3
   \<and> occupiedIffOneOpenSession demoCheckedOut
   \<and> fst (checkIn demoCheckedOut otherCar ''x2'' 3600000) = Inr (''s1'', ''F1-A1'')
   \<and> occupiedIffOneOpenSession demoReused
   \<and> fst (checkOut demoReused ''x1'' 7200000) = Inr 5
   \<and> map status (inventory demoReusedCheckedOutAgain) = [AVAILABLE, AVAILABLE]
   \<and> map session_id (openSessionsOn demoReusedCheckedOutAgain ''s1'') = [''x2'']
   \<and> \<not> occupiedIffOneOpenSession demoReusedCheckedOutAgain"
    by (intro conjI; code_simp)
  ultimately show ?thesis by (rule conjI)
qed

end
